theory Spec2Isabelle
  imports Complex_Main "HOL-Library.Multiset"
begin

section \<open>Python errors and the module namespace\<close>

text \<open>
  Every exception that the modelled code can raise is a value; a computation that may
  raise returns \<open>py_error + 'a\<close> with \<open>Inl\<close> for the exception.
\<close>

datatype py_error =
  NameError | ValueError | IndexError | KeyError | ZeroDivisionError | TypeError
  | AttributeError | CollaboratorError

text \<open>
  The names bound at module level of \<^verbatim>\<open>training_utils.py\<close>: the five imports and the
  five classes. A name that is neither a local of the running function nor listed here
  (nor a builtin) raises \<^verbatim>\<open>NameError\<close> when it is read.
\<close>

datatype pyval = Module string | Class string

definition module_globals :: "(string \<times> pyval) list" where
  "module_globals =
     [(''tf'', Module ''tensorflow''), (''np'', Module ''numpy''),
      (''eval_utils'', Module ''eval_utils''), (''text_utils'', Module ''text_utils''),
      (''image_utils'', Module ''image_utils''),
      (''DocumentSequence'', Class ''DocumentSequence''),
      (''SaveDocModels'', Class ''SaveDocModels''),
      (''ReduceLROnPlateauAfterValLoss'', Class ''ReduceLROnPlateauAfterValLoss''),
      (''PrintMetrics'', Class ''PrintMetrics''),
      (''LearningRateLinearIncrease'', Class ''LearningRateLinearIncrease'')]"

definition load_global :: "string \<Rightarrow> py_error + pyval" where
  "load_global name =
     (case map_of module_globals name of None \<Rightarrow> Inl NameError | Some v \<Rightarrow> Inr v)"

section \<open>Arrays\<close>

text \<open>
  A numpy array of at least one dimension: \<open>items\<close> has one element per index of axis 0,
  each the row-major flattening of that sub-array, and \<open>tshape\<close> is \<^verbatim>\<open>shape[1:]\<close>.
  A matrix of shape \<open>(n, d)\<close> has \<open>tshape = [d]\<close> and \<open>n\<close> rows of \<open>d\<close> numbers; the
  width \<open>d\<close> is kept when \<open>n = 0\<close>. The code only copies entries and writes the
  constants 0 and 1, so entries are modelled as reals.
\<close>

record ndarray =
  tshape :: "nat list"
  items :: "real list list"

definition nrows :: "ndarray \<Rightarrow> nat" where
  "nrows a = length (items a)"

definition shape :: "ndarray \<Rightarrow> nat list" where
  "shape a = nrows a # tshape a"

definition shape_last :: "ndarray \<Rightarrow> nat" where
  "shape_last a = last (shape a)"

text \<open>\<^verbatim>\<open>np.zeros((r,) + ts)\<close>: a negative dimension raises \<^verbatim>\<open>ValueError\<close>.\<close>

definition np_zeros :: "int \<Rightarrow> nat list \<Rightarrow> py_error + ndarray" where
  "np_zeros r ts =
     (if r < 0 then Inl ValueError
      else Inr \<lparr>tshape = ts, items = replicate (nat r) (replicate (prod_list ts) 0)\<rparr>)"

text \<open>\<^verbatim>\<open>a[:, 0] = v\<close>: index 0 of axis 1 must exist, also when axis 0 is empty.\<close>

definition set_column0 :: "ndarray \<Rightarrow> real \<Rightarrow> py_error + ndarray" where
  "set_column0 a v =
     (case tshape a of
        [] \<Rightarrow> Inl IndexError
      | c # rest \<Rightarrow>
          if c = 0 then Inl IndexError
          else Inr (a\<lparr>items :=
                 map (\<lambda>r. replicate (prod_list rest) v @ drop (prod_list rest) r) (items a)\<rparr>))"

definition atleast_2d :: "ndarray \<Rightarrow> ndarray" where
  "atleast_2d a =
     (if tshape a = [] then \<lparr>tshape = [nrows a], items = [concat (items a)]\<rparr> else a)"

text \<open>
  \<^verbatim>\<open>np.vstack(arrays)\<close>: concatenation along axis 0 of the arrays, each made at least
  two-dimensional; an empty list or a disagreement in the other dimensions raises
  \<^verbatim>\<open>ValueError\<close>.
\<close>

definition np_vstack :: "ndarray list \<Rightarrow> py_error + ndarray" where
  "np_vstack arrs =
     (case map atleast_2d arrs of
        [] \<Rightarrow> Inl ValueError
      | b # bs \<Rightarrow>
          if list_all (\<lambda>c. tshape c = tshape b) bs
          then Inr \<lparr>tshape = tshape b, items = concat (map items (b # bs))\<rparr>
          else Inl ValueError)"

text \<open>
  \<^verbatim>\<open>np.vstack\<close> of per-document arrays that \<^verbatim>\<open>np.expand_dims(_, 0)\<close> has given a
  leading axis of length one. The result has one entry per document along axis 0 and
  is kept as the list of these entries; numpy demands at least one array and that all
  of them have the same shape.
\<close>

definition vstack_expanded :: "ndarray list \<Rightarrow> py_error + ndarray list" where
  "vstack_expanded arrs =
     (case arrs of
        [] \<Rightarrow> Inl ValueError
      | b # bs \<Rightarrow>
          if list_all (\<lambda>c. shape c = shape b) bs then Inr (b # bs) else Inl ValueError)"

section \<open>Random shuffling\<close>

text \<open>
  The global generator of \<^verbatim>\<open>np.random\<close>: the sequence of its raw outputs and the
  position of the next one. \<^verbatim>\<open>np.random.shuffle\<close> is the Fisher-Yates loop
  \<^verbatim>\<open>for i in reversed(range(1, n)): j = random_interval(i); x[i], x[j] = x[j], x[i]\<close>.
\<close>

type_synonym rng = "(nat \<Rightarrow> nat) \<times> nat"

definition random_interval :: "rng \<Rightarrow> nat \<Rightarrow> nat \<times> rng" where
  "random_interval g m = (case g of (f, p) \<Rightarrow> (f p mod Suc m, (f, Suc p)))"

definition swap :: "'a list \<Rightarrow> nat \<Rightarrow> nat \<Rightarrow> 'a list" where
  "swap xs i j = xs[i := xs ! j, j := xs ! i]"

fun shuffle_loop :: "nat \<Rightarrow> 'a list \<Rightarrow> rng \<Rightarrow> 'a list \<times> rng" where
  "shuffle_loop 0 xs g = (xs, g)"
| "shuffle_loop (Suc i) xs g =
     (case random_interval g (Suc i) of (j, g') \<Rightarrow> shuffle_loop i (swap xs (Suc i) j) g')"

definition shuffle :: "'a list \<Rightarrow> rng \<Rightarrow> 'a list \<times> rng" where
  "shuffle xs g = shuffle_loop (length xs - 1) xs g"

section \<open>The document sequence\<close>

text \<open>
  A document \<^verbatim>\<open>vers\<close> holds its images in \<^verbatim>\<open>vers[0]\<close> and its sentences in
  \<^verbatim>\<open>vers[1]\<close>; the identifier of an image or a sentence is its component 0.
\<close>

type_synonym entry = "string \<times> string"
type_synonym document = "entry list \<times> entry list"

text \<open>
  Python lists of documents are mutable objects: the heap gives the contents of each
  list object, and a list is referred to by its address (its index in the heap).
\<close>

type_synonym heap = "document list list"

definition alloc :: "heap \<Rightarrow> document list \<Rightarrow> nat \<times> heap" where
  "alloc h xs = (length h, h @ [xs])"

text \<open>\<^verbatim>\<open>xs[lo:hi]\<close> with Python's clamping and negative indices; \<open>None\<close> is an omitted bound.\<close>

definition slice_index :: "int \<Rightarrow> int \<Rightarrow> nat" where
  "slice_index n i = nat (if i < 0 then max 0 (n + i) else min i n)"

definition py_slice :: "'a list \<Rightarrow> int option \<Rightarrow> int option \<Rightarrow> 'a list" where
  "py_slice xs lo hi =
     (let n = int (length xs);
          l = (case lo of None \<Rightarrow> 0 | Some i \<Rightarrow> slice_index n i);
          u = (case hi of None \<Rightarrow> length xs | Some i \<Rightarrow> slice_index n i)
      in take (u - l) (drop l xs))"

text \<open>\<^verbatim>\<open>a = xs[lo:hi]\<close> makes a new list object.\<close>

definition list_slice :: "heap \<Rightarrow> nat \<Rightarrow> int option \<Rightarrow> int option \<Rightarrow> nat \<times> heap" where
  "list_slice h a lo hi = alloc h (py_slice (h ! a) lo hi)"

text \<open>\<^verbatim>\<open>a += ys\<close> on a list extends the object that \<open>a\<close> refers to.\<close>

definition list_iadd :: "heap \<Rightarrow> nat \<Rightarrow> document list \<Rightarrow> heap" where
  "list_iadd h a ys = h[a := h ! a @ ys]"

text \<open>The recognised options of the configuration object \<^verbatim>\<open>args\<close>.\<close>

record namespace =
  docs_per_batch :: int
  seq_len :: int
  subsample_text :: int
  subsample_image :: int
  end2end :: bool

text \<open>
  The attributes set by \<^verbatim>\<open>DocumentSequence.__init__\<close>. \<open>data_in\<close> is the address of
  the document list; the constructor stores its parameter \<^verbatim>\<open>augment\<close> under the name
  \<^verbatim>\<open>argument\<close>.
\<close>

record DocumentSequence =
  data_in :: nat
  image_matrix :: ndarray
  image_idx2row :: "(string \<times> nat) list"
  max_sentences_per_doc :: nat
  max_images_per_doc :: nat
  vocab :: "(string \<times> nat) list"
  args :: namespace
  argument :: bool
  shuffle_sentences :: bool
  shuffle_images :: bool
  shuffle_docs :: bool

text \<open>
  The modules \<^verbatim>\<open>image_utils\<close> and \<^verbatim>\<open>text_utils\<close> are not part of the source under
  study: the three functions that \<^verbatim>\<open>__getitem__\<close> calls are parameters, each returning
  an array or raising.
\<close>

record collaborators =
  images_to_images :: "string list \<Rightarrow> pyval \<Rightarrow> pyval \<Rightarrow> py_error + ndarray"
  images_to_matrix :: "string list \<Rightarrow> ndarray \<Rightarrow> (string \<times> nat) list \<Rightarrow> py_error + ndarray"
  text_to_matrix :: "string list \<Rightarrow> (string \<times> nat) list \<Rightarrow> int \<Rightarrow> py_error + ndarray"

text \<open>
  \<^verbatim>\<open>__len__\<close>: \<^verbatim>\<open>int(np.ceil(len(self.data_in) / self.args.docs_per_batch))\<close>, the
  division being exact here; \<^verbatim>\<open>len()\<close> refuses a negative result.
\<close>

definition DocumentSequence_len :: "DocumentSequence \<Rightarrow> heap \<Rightarrow> py_error + int" where
  "DocumentSequence_len ds h =
     (if docs_per_batch (args ds) = 0 then Inl ZeroDivisionError
      else
        let r = \<lceil>real (length (h ! data_in ds)) / real_of_int (docs_per_batch (args ds))\<rceil>
        in if r < 0 then Inl ValueError else Inr r)"

text \<open>
  Lines 48 to 63 of \<^verbatim>\<open>__getitem__\<close>: the identifier lists of one document, shuffled
  and subsampled. \<^verbatim>\<open>self.args\<close> is an object and so true in \<^verbatim>\<open>self.args and ...\<close>.
\<close>

definition select_ids ::
  "DocumentSequence \<Rightarrow> document \<Rightarrow> rng \<Rightarrow> string list \<times> string list \<times> rng" where
  "select_ids ds vers g0 =
     (let cur_images0 = map fst (fst vers);
          cur_text0 = map fst (snd vers);
          (cur_text1, g1) =
             (if shuffle_sentences ds \<and> \<not> subsample_text (args ds) > 0
              then shuffle cur_text0 g0 else (cur_text0, g0));
          (cur_images1, g2) =
             (if shuffle_images ds \<and> \<not> subsample_image (args ds) > 0
              then shuffle cur_images0 g1 else (cur_images0, g1));
          (cur_images2, g3) =
             (if subsample_image (args ds) > 0
              then (case shuffle cur_images1 g2 of
                      (xs, g') \<Rightarrow> (py_slice xs None (Some (subsample_image (args ds))), g'))
              else (cur_images1, g2));
          (cur_text2, g4) =
             (if subsample_text (args ds) > 0
              then (case shuffle cur_text1 g3 of
                      (xs, g') \<Rightarrow> (py_slice xs None (Some (subsample_text (args ds))), g'))
              else (cur_text1, g3))
      in (cur_images2, cur_text2, g4))"

text \<open>The number of rows that padding brings a document's matrix to.\<close>

definition image_target :: "DocumentSequence \<Rightarrow> int" where
  "image_target ds =
     (if subsample_image (args ds) > 0 then subsample_image (args ds)
      else int (max_images_per_doc ds))"

definition text_target :: "DocumentSequence \<Rightarrow> int" where
  "text_target ds =
     (if subsample_text (args ds) > 0 then subsample_text (args ds)
      else int (max_sentences_per_doc ds))"

text \<open>What the loop body appends for one document.\<close>

record doc_arrays =
  doc_images :: ndarray
  doc_text :: ndarray
  image_n :: nat
  text_n :: nat

text \<open>
  Lines 65 to 99: feature lookup and padding of one document. In the end-to-end branch
  the call reads the names \<^verbatim>\<open>augment\<close> and \<^verbatim>\<open>args\<close>, which are not locals of
  \<^verbatim>\<open>__getitem__\<close> and so are looked up in the module namespace.
\<close>

definition materialize ::
  "DocumentSequence \<Rightarrow> collaborators \<Rightarrow> string list \<Rightarrow> string list \<Rightarrow> py_error + doc_arrays" where
  "materialize ds c cur_images cur_text =
     (case
        (if end2end (args ds) then
           (case load_global ''augment'' of Inl e \<Rightarrow> Inl e | Inr augment \<Rightarrow>
           (case load_global ''args'' of Inl e \<Rightarrow> Inl e | Inr a \<Rightarrow>
           (case images_to_images c cur_images augment a of Inl e \<Rightarrow> Inl e | Inr imgs \<Rightarrow>
           (case np_zeros (image_target ds - int (nrows imgs)) [224, 224, 3] of
              Inl e \<Rightarrow> Inl e | Inr image_padding \<Rightarrow> Inr (imgs, image_padding)))))
         else
           (case images_to_matrix c cur_images (image_matrix ds) (image_idx2row ds) of
              Inl e \<Rightarrow> Inl e | Inr imgs \<Rightarrow>
           (case np_zeros (image_target ds - int (nrows imgs)) [shape_last imgs] of
              Inl e \<Rightarrow> Inl e | Inr image_padding \<Rightarrow> Inr (imgs, image_padding))))
      of Inl e \<Rightarrow> Inl e | Inr (imgs, image_padding) \<Rightarrow>
      (case text_to_matrix c cur_text (vocab ds) (seq_len (args ds)) of
        Inl e \<Rightarrow> Inl e | Inr txt \<Rightarrow>
      (case np_zeros (text_target ds - int (nrows txt)) [shape_last txt] of
        Inl e \<Rightarrow> Inl e | Inr text_padding0 \<Rightarrow>
      (case set_column0 text_padding0 1 of Inl e \<Rightarrow> Inl e | Inr text_padding \<Rightarrow>
      (case np_vstack [imgs, image_padding] of Inl e \<Rightarrow> Inl e | Inr padded_images \<Rightarrow>
      (case np_vstack [txt, text_padding] of Inl e \<Rightarrow> Inl e | Inr padded_text \<Rightarrow>
        Inr \<lparr>doc_images = padded_images, doc_text = padded_text,
             image_n = nrows imgs, text_n = nrows txt\<rparr>))))))"

text \<open>The loop over the documents of the batch (lines 47 to 105).\<close>

fun process_docs ::
  "DocumentSequence \<Rightarrow> collaborators \<Rightarrow> document list \<Rightarrow> rng
     \<Rightarrow> (py_error + doc_arrays list) \<times> rng" where
  "process_docs ds c [] g = (Inr [], g)"
| "process_docs ds c (vers # rest) g =
     (case select_ids ds vers g of
        (cur_images, cur_text, g1) \<Rightarrow>
          (case materialize ds c cur_images cur_text of
             Inl e \<Rightarrow> (Inl e, g1)
           | Inr r \<Rightarrow>
               (case process_docs ds c rest g1 of
                  (Inl e, g2) \<Rightarrow> (Inl e, g2)
                | (Inr rs, g2) \<Rightarrow> (Inr (r # rs), g2))))"

text \<open>
  The value returned by \<^verbatim>\<open>__getitem__\<close>: the four arrays and the placeholder target.
  The count vectors have shape \<open>(n, 1)\<close>.
\<close>

record batch =
  texts :: "ndarray list"
  images :: "ndarray list"
  text_n_docs :: "nat list list"
  image_n_docs :: "nat list list"
  y :: "real list \<times> real list"

text \<open>Lines 107 to 118: stacking the per-document results.\<close>

definition assemble :: "doc_arrays list \<Rightarrow> py_error + batch" where
  "assemble rs =
     (case vstack_expanded (map doc_images rs) of Inl e \<Rightarrow> Inl e | Inr imgs \<Rightarrow>
     (case vstack_expanded (map doc_text rs) of Inl e \<Rightarrow> Inl e | Inr txts \<Rightarrow>
        Inr \<lparr>texts = txts, images = imgs,
             text_n_docs = map (\<lambda>r. [text_n r]) rs,
             image_n_docs = map (\<lambda>r. [image_n r]) rs,
             y = (replicate (length rs) 0, replicate (length rs) 0)\<rparr>))"

text \<open>
  Lines 37 to 43: the documents of batch \<open>idx\<close>. The slice is a new list, which the
  last batch extends by the leading documents of the collection.
\<close>

definition batch_docs ::
  "DocumentSequence \<Rightarrow> heap \<Rightarrow> int \<Rightarrow> (py_error + nat) \<times> heap" where
  "batch_docs ds h idx =
     (let start = idx * docs_per_batch (args ds);
          end = (idx + 1) * docs_per_batch (args ds);
          (cur_doc_b, h1) = list_slice h (data_in ds) (Some start) (Some end)
      in case DocumentSequence_len ds h1 of
           Inl e \<Rightarrow> (Inl e, h1)
         | Inr n \<Rightarrow>
             if idx = n - 1 then
               let docs_to_add = docs_per_batch (args ds) - int (length (h1 ! cur_doc_b))
               in (Inr cur_doc_b,
                   list_iadd h1 cur_doc_b (py_slice (h1 ! data_in ds) None (Some docs_to_add)))
             else (Inr cur_doc_b, h1))"

definition DocumentSequence_getitem ::
  "DocumentSequence \<Rightarrow> collaborators \<Rightarrow> heap \<Rightarrow> rng \<Rightarrow> int
     \<Rightarrow> (py_error + batch) \<times> heap \<times> rng" where
  "DocumentSequence_getitem ds c h g idx =
     (case batch_docs ds h idx of
        (Inl e, h') \<Rightarrow> (Inl e, h', g)
      | (Inr cur_doc_b, h') \<Rightarrow>
          (case process_docs ds c (h' ! cur_doc_b) g of
             (Inl e, g') \<Rightarrow> (Inl e, h', g')
           | (Inr rs, g') \<Rightarrow> (assemble rs, h', g')))"

text \<open>\<^verbatim>\<open>on_epoch_end\<close> of the sequence: shuffles the document list in place.\<close>

definition DocumentSequence_on_epoch_end ::
  "DocumentSequence \<Rightarrow> heap \<Rightarrow> rng \<Rightarrow> heap \<times> rng" where
  "DocumentSequence_on_epoch_end ds h g =
     (if shuffle_docs ds
      then (case shuffle (h ! data_in ds) g of (xs, g') \<Rightarrow> (h[data_in ds := xs], g'))
      else (h, g))"

section \<open>Training callbacks\<close>

text \<open>
  A float as the callbacks compare it: a finite number, an infinity (\<^verbatim>\<open>np.inf\<close> is
  the initial best loss) or NaN. \<open>xless\<close> is \<^verbatim>\<open><\<close>: every comparison with NaN is
  false.
\<close>

datatype xreal = NegInf | Fin real | PosInf | NaN

fun xless :: "xreal \<Rightarrow> xreal \<Rightarrow> bool" where
  "xless (Fin a) (Fin b) = (a < b)"
| "xless NegInf NegInf = False"
| "xless NegInf (Fin b) = True"
| "xless NegInf PosInf = True"
| "xless (Fin a) PosInf = True"
| "xless (Fin a) NegInf = False"
| "xless PosInf b = False"
| "xless NaN b = False"
| "xless a NaN = False"

fun xplus :: "xreal \<Rightarrow> real \<Rightarrow> xreal" where
  "xplus (Fin a) d = Fin (a + d)"
| "xplus NegInf d = NegInf"
| "xplus PosInf d = PosInf"
| "xplus NaN d = NaN"

text \<open>
  The \<^verbatim>\<open>logs\<close> dictionary that the training loop hands to a callback, and
  \<^verbatim>\<open>d[k] = v\<close> on it: an existing key keeps its place, a new key goes to the end.
\<close>

type_synonym logs = "(string \<times> xreal) list"

fun dict_setitem :: "string \<Rightarrow> xreal \<Rightarrow> logs \<Rightarrow> logs" where
  "dict_setitem k v [] = [(k, v)]"
| "dict_setitem k v (p # ps) = (if fst p = k then (k, v) # ps else p # dict_setitem k v ps)"

subsection \<open>SaveDocModels\<close>

datatype doc_model = single_text_doc_model | single_image_doc_model

text \<open>
  The attributes of the checkpoint saver. \<open>saved\<close> is the effect of the \<^verbatim>\<open>save\<close>
  calls: which model was written to which path, in order.
\<close>

record SaveDocModels =
  checkpoint_dir :: string
  best_val_loss :: xreal
  best_checkpoints_and_logs :: "(string \<times> string \<times> logs \<times> int) option"
  saved :: "(doc_model \<times> string) list"

text \<open>
  Python's \<^verbatim>\<open>'{}'.format\<close> of the epoch and \<^verbatim>\<open>'{:.5f}'.format\<close> of the loss are
  builtins, taken as parameters.
\<close>

record py_format =
  format_int :: "int \<Rightarrow> string"
  format_5f :: "xreal \<Rightarrow> string"

definition SaveDocModels_on_train_begin :: "SaveDocModels \<Rightarrow> SaveDocModels" where
  "SaveDocModels_on_train_begin s =
     s\<lparr>best_val_loss := PosInf, best_checkpoints_and_logs := None\<rparr>"

definition SaveDocModels_on_epoch_end ::
  "py_format \<Rightarrow> SaveDocModels \<Rightarrow> int \<Rightarrow> logs \<Rightarrow> py_error + SaveDocModels" where
  "SaveDocModels_on_epoch_end f s epoch lg =
     (case map_of lg ''val_loss'' of
        None \<Rightarrow> Inl KeyError
      | Some v \<Rightarrow>
          if xless v (best_val_loss s) then
            let image_model_str =
                  checkpoint_dir s @ ''/image_model_epoch_'' @ format_int f epoch
                    @ ''_val='' @ format_5f f v @ ''.model'';
                sentence_model_str =
                  checkpoint_dir s @ ''/text_model_epoch_'' @ format_int f epoch
                    @ ''_val='' @ format_5f f v @ ''.model''
            in Inr (s\<lparr>best_val_loss := v,
                      best_checkpoints_and_logs :=
                        Some (image_model_str, sentence_model_str, lg, epoch),
                      saved := saved s @ [(single_text_doc_model, sentence_model_str),
                                          (single_image_doc_model, image_model_str)]\<rparr>)
          else Inr s)"

text \<open>The training loop calls \<^verbatim>\<open>on_epoch_end\<close> once per epoch; an exception ends the run.\<close>

fun SaveDocModels_epochs ::
  "py_format \<Rightarrow> SaveDocModels \<Rightarrow> (int \<times> logs) list \<Rightarrow> py_error + SaveDocModels" where
  "SaveDocModels_epochs f s [] = Inr s"
| "SaveDocModels_epochs f s ((epoch, lg) # rest) =
     (case SaveDocModels_on_epoch_end f s epoch lg of
        Inl e \<Rightarrow> Inl e
      | Inr s' \<Rightarrow> SaveDocModels_epochs f s' rest)"

text \<open>The validation losses of the epochs of a run, in order.\<close>

definition val_losses :: "(int \<times> logs) list \<Rightarrow> xreal list" where
  "val_losses es = concat (map (\<lambda>(epoch, lg). case map_of lg ''val_loss'' of
                                 None \<Rightarrow> [] | Some v \<Rightarrow> [v]) es)"

subsection \<open>ReduceLROnPlateauAfterValLoss\<close>

text \<open>
  The attributes that the class inherits from the framework's
  \<^verbatim>\<open>tf.keras.callbacks.ReduceLROnPlateau\<close>, with the optimizer's learning rate \<open>lr\<close>
  that it adjusts: the number that the optimizer's single-precision variable holds.
  \<open>mode_min\<close> says that the monitored quantity is minimised.
\<close>

record ReduceLROnPlateau =
  monitor :: string
  factor :: real
  patience :: int
  min_lr :: real
  cooldown :: int
  min_delta :: real
  mode_min :: bool
  best :: xreal
  cooldown_counter :: int
  wait :: int
  lr :: real

text \<open>
  \<^verbatim>\<open>self.current_logs\<close> is not set by \<^verbatim>\<open>__init__\<close>; \<^verbatim>\<open>on_epoch_end\<close> stores its
  argument there, a dictionary or \<^verbatim>\<open>None\<close>.
\<close>

datatype logs_attr = Unset | PyNone | Dict logs

record ReduceLROnPlateauAfterValLoss = ReduceLROnPlateau +
  activation_val_loss :: xreal
  val_threshold_activated :: bool
  current_logs :: logs_attr

text \<open>
  The framework's \<^verbatim>\<open>_reset\<close>, which the subclass calls on activation: the best value
  goes back to the infinity of the mode, the cooldown counter and the wait counter to 0.
\<close>

definition reset :: "ReduceLROnPlateauAfterValLoss \<Rightarrow> ReduceLROnPlateauAfterValLoss" where
  "reset s = s\<lparr>best := (if mode_min s then PosInf else NegInf),
               cooldown_counter := 0, wait := 0\<rparr>"

text \<open>The framework's \<^verbatim>\<open>monitor_op\<close>: has \<open>a\<close> improved on \<open>b\<close> by more than \<open>min_delta\<close>.\<close>

definition monitor_op :: "ReduceLROnPlateauAfterValLoss \<Rightarrow> xreal \<Rightarrow> xreal \<Rightarrow> bool" where
  "monitor_op s a b =
     (if mode_min s then xless a (xplus b (- min_delta s)) else xless (xplus b (min_delta s)) a)"

text \<open>
  \<^verbatim>\<open>in_cooldown\<close> as the subclass overrides it (lines 167 to 177). Reading
  \<^verbatim>\<open>self.current_logs['val_loss']\<close> raises when the attribute is unset, is
  \<^verbatim>\<open>None\<close> or lacks the key.
\<close>

definition in_cooldown ::
  "ReduceLROnPlateauAfterValLoss \<Rightarrow> py_error + (bool \<times> ReduceLROnPlateauAfterValLoss)" where
  "in_cooldown s =
     (if \<not> val_threshold_activated s then
        (case current_logs s of
           Unset \<Rightarrow> Inl AttributeError
         | PyNone \<Rightarrow> Inl TypeError
         | Dict lg \<Rightarrow>
             (case map_of lg ''val_loss'' of
                None \<Rightarrow> Inl KeyError
              | Some v \<Rightarrow>
                  if xless v (activation_val_loss s) then
                    let s' = reset (s\<lparr>val_threshold_activated := True\<rparr>)
                    in Inr (cooldown_counter s' > 0 \<or> \<not> val_threshold_activated s', s')
                  else Inr (cooldown_counter s > 0 \<or> \<not> val_threshold_activated s, s)))
      else Inr (cooldown_counter s > 0 \<or> \<not> val_threshold_activated s, s))"

text \<open>The test that the framework's own \<^verbatim>\<open>in_cooldown\<close> makes.\<close>

definition plain_in_cooldown ::
  "ReduceLROnPlateauAfterValLoss \<Rightarrow> py_error + (bool \<times> ReduceLROnPlateauAfterValLoss)" where
  "plain_in_cooldown s = Inr (cooldown_counter s > 0, s)"

text \<open>
  The first two statements of the framework's \<^verbatim>\<open>on_epoch_end\<close>,
  \<^verbatim>\<open>logs = logs or {}\<close> and \<^verbatim>\<open>logs['lr'] = ...\<close>: the dictionary that the method goes
  on with, the rate being \<open>r\<close>, and the state as it then is. A dictionary that is not
  empty is changed in place, so the attribute \<^verbatim>\<open>current_logs\<close>, which refers to the same
  dictionary, sees the new key; for an empty dictionary or \<^verbatim>\<open>None\<close> the method works on
  a new dictionary.
\<close>

definition logs_with_lr :: "real \<Rightarrow> logs option \<Rightarrow> logs" where
  "logs_with_lr r logs_arg =
     dict_setitem ''lr'' (Fin r) (case logs_arg of None \<Rightarrow> [] | Some lg \<Rightarrow> lg)"

definition seen_through_alias ::
  "ReduceLROnPlateauAfterValLoss \<Rightarrow> logs option \<Rightarrow> ReduceLROnPlateauAfterValLoss" where
  "seen_through_alias s logs_arg =
     (case logs_arg of
        None \<Rightarrow> s
      | Some [] \<Rightarrow> s
      | Some (p # ps) \<Rightarrow> s\<lparr>current_logs := Dict (logs_with_lr (lr s) logs_arg)\<rparr>)"

text \<open>
  \<^verbatim>\<open>on_epoch_end\<close> of the framework's \<^verbatim>\<open>ReduceLROnPlateau\<close>, which the subclass
  inherits; the framework is outside the repository and the method is transcribed here.
  It puts the rate into the logs, reads the monitored quantity and, unless
  \<^verbatim>\<open>self.in_cooldown()\<close> holds, counts an epoch without improvement and multiplies the
  rate by \<open>factor\<close> once \<open>patience\<close> such epochs have passed. The call
  \<^verbatim>\<open>self.in_cooldown()\<close> is dispatched to the class of the object: \<open>in_cd\<close> is that
  method. \<open>float32\<close> is the rounding of the rate when it is stored in the optimizer.
\<close>

definition ReduceLROnPlateau_on_epoch_end ::
  "(ReduceLROnPlateauAfterValLoss \<Rightarrow> py_error + (bool \<times> ReduceLROnPlateauAfterValLoss))
     \<Rightarrow> (real \<Rightarrow> real) \<Rightarrow> ReduceLROnPlateauAfterValLoss \<Rightarrow> int \<Rightarrow> logs option
     \<Rightarrow> py_error + ReduceLROnPlateauAfterValLoss" where
  "ReduceLROnPlateau_on_epoch_end in_cd float32 s epoch logs_arg =
     (let lg' = logs_with_lr (lr s) logs_arg;
          s0 = seen_through_alias s logs_arg
      in case map_of lg' (monitor s0) of
           None \<Rightarrow> Inr s0
         | Some current \<Rightarrow>
             (case in_cd s0 of
                Inl e \<Rightarrow> Inl e
              | Inr (b1, s1) \<Rightarrow>
                  let s2 = (if b1 then s1\<lparr>cooldown_counter := cooldown_counter s1 - 1, wait := 0\<rparr>
                            else s1)
                  in if monitor_op s2 current (best s2)
                     then Inr (s2\<lparr>best := current, wait := 0\<rparr>)
                     else
                       (case in_cd s2 of
                          Inl e \<Rightarrow> Inl e
                        | Inr (b2, s3) \<Rightarrow>
                            if \<not> b2 then
                              let s4 = s3\<lparr>wait := wait s3 + 1\<rparr>
                              in if wait s4 \<ge> patience s4 then
                                   if lr s4 > min_lr s4
                                   then Inr (s4\<lparr>lr := float32 (max (lr s4 * factor s4) (min_lr s4)),
                                                 cooldown_counter := cooldown s4, wait := 0\<rparr>)
                                   else Inr s4
                                 else Inr s4
                            else Inr s3)))"

text \<open>
  \<^verbatim>\<open>on_epoch_end\<close> of the subclass (lines 179 to 181): it stores the logs in
  \<^verbatim>\<open>self.current_logs\<close> and calls the inherited method, in which
  \<^verbatim>\<open>self.in_cooldown()\<close> is the override above.
\<close>

definition ReduceLROnPlateauAfterValLoss_on_epoch_end ::
  "(real \<Rightarrow> real) \<Rightarrow> ReduceLROnPlateauAfterValLoss \<Rightarrow> int \<Rightarrow> logs option
     \<Rightarrow> py_error + ReduceLROnPlateauAfterValLoss" where
  "ReduceLROnPlateauAfterValLoss_on_epoch_end float32 s epoch logs_arg =
     ReduceLROnPlateau_on_epoch_end in_cooldown float32
       (s\<lparr>current_logs := (case logs_arg of None \<Rightarrow> PyNone | Some lg \<Rightarrow> Dict lg)\<rparr>)
       epoch logs_arg"

text \<open>
  What \<^verbatim>\<open>self.current_logs\<close> holds when \<^verbatim>\<open>on_epoch_end\<close> is over, the rate having been
  \<open>r\<close>: the dictionary of the call with the key \<^verbatim>\<open>lr\<close> set, an empty dictionary as it
  was, or \<^verbatim>\<open>None\<close>.
\<close>

definition current_logs_after :: "real \<Rightarrow> logs option \<Rightarrow> logs_attr" where
  "current_logs_after r logs_arg =
     (case logs_arg of
        None \<Rightarrow> PyNone
      | Some [] \<Rightarrow> Dict []
      | Some (p # ps) \<Rightarrow> Dict (logs_with_lr r logs_arg))"

subsection \<open>LearningRateLinearIncrease\<close>

text \<open>
  The attributes of the warmup scheduler and the optimizer's learning rate
  \<open>optimizer_lr\<close> that it sets. Rates are reals: the arithmetic is exact.
\<close>

record LearningRateLinearIncrease =
  max_lr :: real
  warmup_steps :: int
  verbose :: int
  cur_step_count :: int
  optimizer_lr :: real

definition LearningRateLinearIncrease_init ::
  "real \<Rightarrow> int \<Rightarrow> int \<Rightarrow> real \<Rightarrow> LearningRateLinearIncrease" where
  "LearningRateLinearIncrease_init mx ws vb rate =
     \<lparr>max_lr = mx, warmup_steps = ws, verbose = vb, cur_step_count = 0, optimizer_lr = rate\<rparr>"

definition LearningRateLinearIncrease_on_train_begin ::
  "LearningRateLinearIncrease \<Rightarrow> LearningRateLinearIncrease" where
  "LearningRateLinearIncrease_on_train_begin s = s\<lparr>optimizer_lr := 0\<rparr>"

definition LearningRateLinearIncrease_on_batch_begin ::
  "LearningRateLinearIncrease \<Rightarrow> py_error + LearningRateLinearIncrease" where
  "LearningRateLinearIncrease_on_batch_begin s =
     (if cur_step_count s \<ge> warmup_steps s then Inr s
      else if warmup_steps s = 0 then Inl ZeroDivisionError
      else Inr (s\<lparr>optimizer_lr := optimizer_lr s + 1 / real_of_int (warmup_steps s) * max_lr s,
                 cur_step_count := cur_step_count s + 1\<rparr>))"

text \<open>\<open>k\<close> mini-batches in a row, nothing else touching the rate.\<close>

fun on_batch_begin_times ::
  "nat \<Rightarrow> LearningRateLinearIncrease \<Rightarrow> py_error + LearningRateLinearIncrease" where
  "on_batch_begin_times 0 s = Inr s"
| "on_batch_begin_times (Suc k) s =
     (case LearningRateLinearIncrease_on_batch_begin s of
        Inl e \<Rightarrow> Inl e
      | Inr s' \<Rightarrow> on_batch_begin_times k s')"

section \<open>Quantities that the properties refer to\<close>

text \<open>
  The state of the generator when the loop of \<^verbatim>\<open>__getitem__\<close> reaches document \<open>k\<close>
  of the batch, the identifier lists that the loop then draws for it, and the list
  of documents that \<^verbatim>\<open>__getitem__\<close> iterates over.
\<close>

fun rng_at :: "DocumentSequence \<Rightarrow> document list \<Rightarrow> rng \<Rightarrow> nat \<Rightarrow> rng" where
  "rng_at ds [] g k = g"
| "rng_at ds (vers # rest) g 0 = g"
| "rng_at ds (vers # rest) g (Suc k) = rng_at ds rest (snd (snd (select_ids ds vers g))) k"

definition selected ::
  "DocumentSequence \<Rightarrow> document list \<Rightarrow> rng \<Rightarrow> nat \<Rightarrow> string list \<times> string list" where
  "selected ds docs g k =
     (case select_ids ds (docs ! k) (rng_at ds docs g k) of (ci, ct, g') \<Rightarrow> (ci, ct))"

definition cur_doc_b_of :: "DocumentSequence \<Rightarrow> heap \<Rightarrow> int \<Rightarrow> document list" where
  "cur_doc_b_of ds h idx =
     (case batch_docs ds h idx of (Inl e, h') \<Rightarrow> [] | (Inr a, h') \<Rightarrow> h' ! a)"

section \<open>Concrete inputs\<close>

text \<open>
  Collaborators that return one row per identifier: image features of width 2 and
  token rows of width \<open>seq_len\<close>.
\<close>

definition example_collaborators :: collaborators where
  "example_collaborators =
     \<lparr>images_to_images = (\<lambda>ids a b. Inl CollaboratorError),
      images_to_matrix = (\<lambda>ids m r. Inr \<lparr>tshape = [2], items = map (\<lambda>i. [5, 6]) ids\<rparr>),
      text_to_matrix =
        (\<lambda>ids v n. Inr \<lparr>tshape = [nat n], items = map (\<lambda>i. replicate (nat n) 7) ids\<rparr>)\<rparr>"

definition example_sequence :: DocumentSequence where
  "example_sequence =
     \<lparr>data_in = 0, image_matrix = \<lparr>tshape = [2], items = []\<rparr>, image_idx2row = [],
      max_sentences_per_doc = 2, max_images_per_doc = 2, vocab = [],
      args = \<lparr>docs_per_batch = 3, seq_len = 2, subsample_text = 0, subsample_image = 0,
               end2end = False\<rparr>,
      argument = True, shuffle_sentences = False, shuffle_images = True, shuffle_docs = True\<rparr>"

definition example_end2end :: DocumentSequence where
  "example_end2end =
     example_sequence\<lparr>args := (args example_sequence)\<lparr>end2end := True\<rparr>\<rparr>"

definition example_document :: document where
  "example_document = ([(''i1'', ''jpg'')], [(''s1'', ''a sentence'')])"

definition example_rng :: rng where
  "example_rng = ((\<lambda>n. 7 * n + 3), 0)"

text \<open>A second document, with two images and no sentence.\<close>

definition example_document2 :: document where
  "example_document2 = ([(''i2'', ''jpg''), (''i3'', ''png'')], [])"

text \<open>A sequence that neither shuffles nor subsamples, and a document with three images.\<close>

definition example_plain :: DocumentSequence where
  "example_plain = example_sequence\<lparr>shuffle_images := False, shuffle_docs := False\<rparr>"

definition example_document3 :: document where
  "example_document3 =
     ([(''i4'', ''jpg''), (''i5'', ''jpg''), (''i6'', ''jpg'')], [(''s2'', ''one sentence'')])"

text \<open>The batch that the plain sequence returns for a collection of two documents.\<close>

definition example_batch :: batch where
  "example_batch =
     \<lparr>texts = [\<lparr>tshape = [2], items = [[7, 7], [1, 0]]\<rparr>,
               \<lparr>tshape = [2], items = [[1, 0], [1, 0]]\<rparr>,
               \<lparr>tshape = [2], items = [[7, 7], [1, 0]]\<rparr>],
      images = [\<lparr>tshape = [2], items = [[5, 6], [0, 0]]\<rparr>,
                \<lparr>tshape = [2], items = [[5, 6], [5, 6]]\<rparr>,
                \<lparr>tshape = [2], items = [[5, 6], [0, 0]]\<rparr>],
      text_n_docs = [[1], [0], [1]], image_n_docs = [[1], [2], [1]],
      y = ([0, 0, 0], [0, 0, 0])\<rparr>"

text \<open>
  The batch that the plain sequence returns for a collection of one document and
  three documents per batch.
\<close>

definition example_short_batch :: batch where
  "example_short_batch =
     \<lparr>texts = [\<lparr>tshape = [2], items = [[7, 7], [1, 0]]\<rparr>,
               \<lparr>tshape = [2], items = [[7, 7], [1, 0]]\<rparr>],
      images = [\<lparr>tshape = [2], items = [[5, 6], [0, 0]]\<rparr>,
                \<lparr>tshape = [2], items = [[5, 6], [0, 0]]\<rparr>],
      text_n_docs = [[1], [1]], image_n_docs = [[1], [1]],
      y = ([0, 0], [0, 0])\<rparr>"

text \<open>A saver and formats for the epoch and the loss of the example run.\<close>

definition example_format :: py_format where
  "example_format =
     \<lparr>format_int = (\<lambda>i. if i = 1 then ''1'' else ''0''),
      format_5f = (\<lambda>v. if v = Fin 1 then ''1.00000'' else ''2.00000'')\<rparr>"

definition example_saver :: SaveDocModels where
  "example_saver =
     \<lparr>checkpoint_dir = ''ckpt'', best_val_loss = Fin 0, best_checkpoints_and_logs = None,
      saved = []\<rparr>"

text \<open>A reducer that waits for a validation loss below 2.\<close>

definition example_reducer :: ReduceLROnPlateauAfterValLoss where
  "example_reducer =
     \<lparr>monitor = ''val_loss'', factor = 1 / 2, patience = 0, min_lr = 0, cooldown = 0,
      min_delta = 0, mode_min = True, best = PosInf, cooldown_counter = 0, wait = 0, lr = 1,
      activation_val_loss = Fin 2, val_threshold_activated = False, current_logs = Unset\<rparr>"

text \<open>The same reducer watching \<^verbatim>\<open>val_acc\<close>, and the storing of a rate that is representable.\<close>

definition example_reducer_acc :: ReduceLROnPlateauAfterValLoss where
  "example_reducer_acc = example_reducer\<lparr>monitor := ''val_acc'', mode_min := False\<rparr>"

definition example_float32 :: "real \<Rightarrow> real" where
  "example_float32 r = r"

section \<open>Shuffling permutes\<close>

lemma shuffle_loop_mset:
  "i < length xs \<Longrightarrow> mset (fst (shuffle_loop i xs g)) = mset xs"
proof (induction i arbitrary: xs g)
  case 0
  then show ?case by simp
next
  case (Suc i)
  obtain j g' where r: "random_interval g (Suc i) = (j, g')" by (cases "random_interval g (Suc i)")
  then have j: "j \<le> Suc i" by (auto simp: random_interval_def split: prod.splits)
  have m: "mset (swap xs (Suc i) j) = mset xs"
    using Suc.prems j by (simp add: swap_def mset_swap)
  have l: "i < length (swap xs (Suc i) j)" using Suc.prems by (simp add: swap_def)
  show ?case using Suc.IH[OF l, of g'] m r by simp
qed

lemma shuffle_mset: "mset (fst (shuffle xs g)) = mset xs"
proof (cases xs)
  case Nil
  then show ?thesis by (simp add: shuffle_def)
next
  case (Cons a list)
  then show ?thesis by (simp add: shuffle_def shuffle_loop_mset)
qed


lemma shuffle_Nil: "fst (shuffle [] g) = []"
  by (simp add: shuffle_def)

section \<open>The loop over the documents of a batch\<close>


lemma py_slice_Nil: "py_slice [] lo hi = []"
  by (simp add: py_slice_def)



lemma materialize_end2end: "end2end (args ds) \<Longrightarrow> materialize ds c ci ct = Inl NameError"
  by (simp add: materialize_def load_global_def module_globals_def)

lemma process_docs_Inr:
  "process_docs ds c docs g = (Inr rs, g') \<Longrightarrow>
     length rs = length docs \<and>
     (\<forall>k<length docs. materialize ds c (fst (selected ds docs g k)) (snd (selected ds docs g k))
        = Inr (rs ! k))"
proof (induction docs arbitrary: g rs)
  case Nil
  then show ?case by simp
next
  case (Cons vers rest)
  obtain ci ct g1 where s: "select_ids ds vers g = (ci, ct, g1)" by (cases "select_ids ds vers g")
  from Cons.prems s obtain r where m: "materialize ds c ci ct = Inr r"
    by (auto split: sum.splits prod.splits)
  from Cons.prems s m obtain rs' where p: "process_docs ds c rest g1 = (Inr rs', g')" and rs: "rs = r # rs'"
    by (auto split: sum.splits prod.splits)
  note ih = Cons.IH[OF p]
  show ?case
  proof (intro conjI allI impI)
    show "length rs = length (vers # rest)" using ih rs by simp
  next
    fix k assume k: "k < length (vers # rest)"
    show "materialize ds c (fst (selected ds (vers # rest) g k)) (snd (selected ds (vers # rest) g k)) = Inr (rs ! k)"
    proof (cases k)
      case 0
      then show ?thesis using s m rs by (simp add: selected_def)
    next
      case (Suc k')
      then have "k' < length rest" using k by simp
      then show ?thesis using ih Suc s rs by (simp add: selected_def)
    qed
  qed
qed

section \<open>The documents of a batch\<close>

lemma batch_docs_heap:
  assumes "data_in ds < length h"
  shows "\<exists>r xs. batch_docs ds h idx = (r, h @ [xs])"
  using assms
  by (auto simp: batch_docs_def list_slice_def alloc_def Let_def list_iadd_def nth_append
      DocumentSequence_len_def split: sum.splits)

lemma len_append:
  "data_in ds < length h \<Longrightarrow> DocumentSequence_len ds (h @ [xs]) = DocumentSequence_len ds h"
  by (simp add: DocumentSequence_len_def nth_append)

lemma batch_docs_Inr:
  assumes a: "data_in ds < length h" and n: "DocumentSequence_len ds h = Inr n"
  shows "batch_docs ds h idx =
     (Inr (length h),
      h @ [py_slice (h ! data_in ds) (Some (idx * docs_per_batch (args ds)))
              (Some ((idx + 1) * docs_per_batch (args ds)))
           @ (if idx = n - 1
              then py_slice (h ! data_in ds) None
                     (Some (docs_per_batch (args ds)
                        - int (length (py_slice (h ! data_in ds) (Some (idx * docs_per_batch (args ds)))
                                 (Some ((idx + 1) * docs_per_batch (args ds)))))))
              else [])])"
  using a n
  by (simp add: batch_docs_def list_slice_def alloc_def Let_def list_iadd_def nth_append len_append)

lemma cur_doc_b_of_Inr:
  assumes a: "data_in ds < length h" and n: "DocumentSequence_len ds h = Inr n"
  shows "cur_doc_b_of ds h idx =
      py_slice (h ! data_in ds) (Some (idx * docs_per_batch (args ds)))
              (Some ((idx + 1) * docs_per_batch (args ds)))
           @ (if idx = n - 1
              then py_slice (h ! data_in ds) None
                     (Some (docs_per_batch (args ds)
                        - int (length (py_slice (h ! data_in ds) (Some (idx * docs_per_batch (args ds)))
                                 (Some ((idx + 1) * docs_per_batch (args ds)))))))
              else [])"
  by (simp add: cur_doc_b_of_def batch_docs_Inr[OF a n])

lemma py_slice_from:
  assumes "0 \<le> s" and "0 < b"
  shows "py_slice xs (Some s) (Some (s + b)) = take (nat b) (drop (nat s) xs)"
  using assms unfolding py_slice_def slice_index_def Let_def
  by (auto simp: min_def nat_add_distrib nat_diff_distrib)

lemma py_slice_window:
  assumes "0 \<le> i" and "0 < b"
  shows "py_slice xs (Some (i * b)) (Some ((i + 1) * b)) = take (nat b) (drop (nat (i * b)) xs)"
proof -
  have s: "0 \<le> i * b" using assms by simp
  have e: "(i + 1) * b = i * b + b" by (simp add: algebra_simps)
  show ?thesis unfolding e by (rule py_slice_from[OF s assms(2)])
qed

lemma valid_index_start:
  assumes b: "0 < b" and i: "i < \<lceil>real n / real_of_int b\<rceil>" and i0: "0 \<le> i"
  shows "nat (i * b) < n"
proof -
  have "real_of_int i < real n / real_of_int b" using i by (simp add: less_ceiling_iff)
  then have "real_of_int i * real_of_int b < real n" using b by (simp add: pos_less_divide_eq)
  then have "real_of_int (i * b) < real_of_int (int n)" by simp
  then have l: "i * b < int n" by (simp only: of_int_less_iff)
  have "0 \<le> i * b" using i0 b by simp
  then show ?thesis using l by linarith
qed

lemma cur_doc_b_nonempty:
  assumes a: "data_in ds < length h" and b: "0 < docs_per_batch (args ds)"
    and n: "DocumentSequence_len ds h = Inr n" and i0: "0 \<le> idx" and i: "idx < n"
  shows "cur_doc_b_of ds h idx \<noteq> []"
proof -
  have nn: "n = \<lceil>real (length (h ! data_in ds)) / real_of_int (docs_per_batch (args ds))\<rceil>"
    using n b by (auto simp: DocumentSequence_len_def Let_def split: if_splits)
  have "nat (idx * docs_per_batch (args ds)) < length (h ! data_in ds)"
    using valid_index_start[OF b _ i0] i nn by simp
  then have "take (nat (docs_per_batch (args ds))) (drop (nat (idx * docs_per_batch (args ds))) (h ! data_in ds)) \<noteq> []"
    using b by simp
  then show ?thesis
    by (simp add: cur_doc_b_of_Inr[OF a n] py_slice_window[OF i0 b])
qed

lemma getitem_process:
  assumes a: "data_in ds < length h" and n: "DocumentSequence_len ds h = Inr n"
  shows "fst (DocumentSequence_getitem ds c h g idx) =
     (case process_docs ds c (cur_doc_b_of ds h idx) g of
        (Inl e, g') \<Rightarrow> Inl e | (Inr rs, g') \<Rightarrow> assemble rs)"
  by (simp add: DocumentSequence_getitem_def cur_doc_b_of_def batch_docs_Inr[OF a n]
      split: prod.splits sum.splits)

lemma process_docs_end2end:
  "end2end (args ds) \<Longrightarrow> docs \<noteq> [] \<Longrightarrow> fst (process_docs ds c docs g) = Inl NameError"
  by (cases docs) (auto simp: materialize_end2end split: prod.splits)

section \<open>End-to-end mode\<close>

text \<open>
  Claim C1. In end-to-end mode \<^verbatim>\<open>__getitem__\<close> is meant to turn the image identifiers
  into raw image tensors and to return. The call on line 66 reads the names
  \<^verbatim>\<open>augment\<close> and \<^verbatim>\<open>args\<close>, which are bound neither in \<^verbatim>\<open>__getitem__\<close> nor in the
  module: for every valid batch index the method raises \<^verbatim>\<open>NameError\<close> and no batch is
  returned.
\<close>

theorem end2end_getitem_raises_NameError:
  assumes "end2end (args ds)" and "data_in ds < length h" and "0 < docs_per_batch (args ds)"
    and "DocumentSequence_len ds h = Inr n" and "0 \<le> idx" and "idx < n"
  shows "fst (DocumentSequence_getitem ds c h g idx) = Inl NameError"
proof -
  have ne: "cur_doc_b_of ds h idx \<noteq> []"
    using assms by (intro cur_doc_b_nonempty) auto
  have "fst (process_docs ds c (cur_doc_b_of ds h idx) g) = Inl NameError"
    using process_docs_end2end[OF assms(1) ne] .
  then show ?thesis
    unfolding getitem_process[OF assms(2) assms(4)]
    by (cases "process_docs ds c (cur_doc_b_of ds h idx) g") auto
qed


theorem end2end_getitem_raises_NameError_witness:
  "fst (DocumentSequence_getitem example_end2end example_collaborators [[example_document]]
          example_rng 0) = Inl NameError"
proof -
  have c: "\<lceil>1 / 3 :: real\<rceil> = 1" by (rule ceiling_unique) simp_all
  have l: "DocumentSequence_len example_end2end [[example_document]] = Inr 1"
    by (simp add: example_end2end_def example_sequence_def DocumentSequence_len_def c)
  show ?thesis
    using end2end_getitem_raises_NameError
            [of example_end2end "[[example_document]]" 1 0 example_collaborators example_rng] l
    by (simp add: example_end2end_def example_sequence_def)
qed

section \<open>The warmup scheduler\<close>

lemma on_batch_begin_times_add:
  "on_batch_begin_times (a + b) s =
     (case on_batch_begin_times a s of Inl e \<Rightarrow> Inl e | Inr s' \<Rightarrow> on_batch_begin_times b s')"
  by (induction a arbitrary: s) (auto split: sum.splits)

lemma on_batch_begin_times_done:
  "warmup_steps s \<le> cur_step_count s \<Longrightarrow> on_batch_begin_times j s = Inr s"
  by (induction j) (auto simp: LearningRateLinearIncrease_on_batch_begin_def)

lemma on_batch_begin_times_warmup:
  "0 < warmup_steps s \<Longrightarrow> cur_step_count s + int k \<le> warmup_steps s \<Longrightarrow>
   on_batch_begin_times k s =
     Inr (s\<lparr>optimizer_lr := optimizer_lr s + real k * (max_lr s / real_of_int (warmup_steps s)),
            cur_step_count := cur_step_count s + int k\<rparr>)"
proof (induction k arbitrary: s)
  case 0
  then show ?case by simp
next
  case (Suc k)
  let ?s' = "s\<lparr>optimizer_lr := optimizer_lr s + 1 / real_of_int (warmup_steps s) * max_lr s,
                 cur_step_count := cur_step_count s + 1\<rparr>"
  have st: "LearningRateLinearIncrease_on_batch_begin s = Inr ?s'"
    using Suc.prems by (simp add: LearningRateLinearIncrease_on_batch_begin_def)
  have "on_batch_begin_times k ?s' =
     Inr (?s'\<lparr>optimizer_lr := optimizer_lr ?s' + real k * (max_lr ?s' / real_of_int (warmup_steps ?s')),
            cur_step_count := cur_step_count ?s' + int k\<rparr>)"
    using Suc.prems by (intro Suc.IH) simp_all
  then show ?case using st by (simp add: algebra_simps add_divide_distrib)
qed

text \<open>
  Claim C7. At train begin the scheduler sets the rate to zero. With nothing else
  changing the rate and \<open>warmup_steps\<close> positive, after \<open>k \<le> warmup_steps\<close> calls of
  \<^verbatim>\<open>on_batch_begin\<close> the rate is \<open>k * (max_lr / warmup_steps)\<close> in exact arithmetic, so
  after \<open>warmup_steps\<close> calls it is \<open>max_lr\<close>, and every later call leaves the rate and
  the step counter as they are.
\<close>

theorem linear_warmup:
  assumes w: "0 < ws"
  shows "optimizer_lr (LearningRateLinearIncrease_on_train_begin
             (LearningRateLinearIncrease_init mx ws vb r0)) = 0
    \<and> (\<forall>k. int k \<le> ws \<longrightarrow>
          (\<exists>s. on_batch_begin_times k (LearningRateLinearIncrease_on_train_begin
                     (LearningRateLinearIncrease_init mx ws vb r0)) = Inr s
               \<and> optimizer_lr s = real k * (mx / real_of_int ws)
               \<and> cur_step_count s = int k))
    \<and> (\<exists>s. on_batch_begin_times (nat ws) (LearningRateLinearIncrease_on_train_begin
                     (LearningRateLinearIncrease_init mx ws vb r0)) = Inr s
            \<and> optimizer_lr s = mx \<and> cur_step_count s = ws
            \<and> LearningRateLinearIncrease_on_batch_begin s = Inr s
            \<and> (\<forall>j. on_batch_begin_times (nat ws + j) (LearningRateLinearIncrease_on_train_begin
                     (LearningRateLinearIncrease_init mx ws vb r0)) = Inr s))"
proof -
  let ?s1 = "LearningRateLinearIncrease_on_train_begin (LearningRateLinearIncrease_init mx ws vb r0)"
  have f: "max_lr ?s1 = mx" "warmup_steps ?s1 = ws" "cur_step_count ?s1 = 0" "optimizer_lr ?s1 = 0"
    by (simp_all add: LearningRateLinearIncrease_on_train_begin_def LearningRateLinearIncrease_init_def)
  have step: "on_batch_begin_times k ?s1 =
       Inr (?s1\<lparr>optimizer_lr := real k * (mx / real_of_int ws), cur_step_count := int k\<rparr>)"
    if "int k \<le> ws" for k
    using on_batch_begin_times_warmup[of ?s1 k] that w f by simp
  let ?s = "?s1\<lparr>optimizer_lr := real (nat ws) * (mx / real_of_int ws), cur_step_count := int (nat ws)\<rparr>"
  have full: "on_batch_begin_times (nat ws) ?s1 = Inr ?s" using step[of "nat ws"] w by simp
  have lr: "optimizer_lr ?s = mx" using w by simp
  have cnt: "cur_step_count ?s = ws" using w by simp
  have fin: "warmup_steps ?s \<le> cur_step_count ?s" using w f by simp
  have after: "on_batch_begin_times (nat ws + j) ?s1 = Inr ?s" for j
    by (simp only: on_batch_begin_times_add full sum.case on_batch_begin_times_done[OF fin])
  have one: "LearningRateLinearIncrease_on_batch_begin ?s = Inr ?s"
    using fin by (simp add: LearningRateLinearIncrease_on_batch_begin_def)
  show ?thesis
  proof (intro conjI allI impI)
    show "optimizer_lr ?s1 = 0" by (rule f)
  next
    fix k assume "int k \<le> ws"
    then show "\<exists>s. on_batch_begin_times k ?s1 = Inr s
               \<and> optimizer_lr s = real k * (mx / real_of_int ws) \<and> cur_step_count s = int k"
      using step[of k] by simp
  next
    show "\<exists>s. on_batch_begin_times (nat ws) ?s1 = Inr s
            \<and> optimizer_lr s = mx \<and> cur_step_count s = ws
            \<and> LearningRateLinearIncrease_on_batch_begin s = Inr s
            \<and> (\<forall>j. on_batch_begin_times (nat ws + j) ?s1 = Inr s)"
      using full lr cnt one after by blast
  qed
qed

text \<open>
  With \<open>warmup_steps = 0\<close> the guard of \<^verbatim>\<open>on_batch_begin\<close> holds from the first call:
  the rate stays at the zero that \<^verbatim>\<open>on_train_begin\<close> has set.
\<close>

lemma no_warmup_rate_stays_zero:
  "on_batch_begin_times j (LearningRateLinearIncrease_on_train_begin
       (LearningRateLinearIncrease_init mx 0 vb r0))
   = Inr (LearningRateLinearIncrease_on_train_begin (LearningRateLinearIncrease_init mx 0 vb r0))"
  by (rule on_batch_begin_times_done)
     (simp add: LearningRateLinearIncrease_on_train_begin_def LearningRateLinearIncrease_init_def)

theorem linear_warmup_witness:
  "(0::int) < 4
   \<and> (\<exists>s. on_batch_begin_times 2 (LearningRateLinearIncrease_on_train_begin
                     (LearningRateLinearIncrease_init 1 4 0 5)) = Inr s
          \<and> optimizer_lr s = 1 / 2)
   \<and> (\<exists>s. on_batch_begin_times 4 (LearningRateLinearIncrease_on_train_begin
                     (LearningRateLinearIncrease_init 1 4 0 5)) = Inr s
          \<and> optimizer_lr s = 1
          \<and> on_batch_begin_times 7 (LearningRateLinearIncrease_on_train_begin
                     (LearningRateLinearIncrease_init 1 4 0 5)) = Inr s)"
proof -
  have w: "(0::int) < 4" by simp
  note t = linear_warmup[OF w, of 1 0 5]
  from t have a: "\<exists>s. on_batch_begin_times 2 (LearningRateLinearIncrease_on_train_begin
                     (LearningRateLinearIncrease_init 1 4 0 5)) = Inr s
          \<and> optimizer_lr s = 1 / 2"
    by (elim conjE allE[of _ "2::nat"]) auto
  from t obtain s where s: "on_batch_begin_times (nat 4) (LearningRateLinearIncrease_on_train_begin
                     (LearningRateLinearIncrease_init 1 4 0 5)) = Inr s" "optimizer_lr s = 1"
     "\<forall>j. on_batch_begin_times (nat 4 + j) (LearningRateLinearIncrease_on_train_begin
                     (LearningRateLinearIncrease_init 1 4 0 5)) = Inr s"
    by blast
  from s(3) have "on_batch_begin_times (nat 4 + 3) (LearningRateLinearIncrease_on_train_begin
                     (LearningRateLinearIncrease_init 1 4 0 5)) = Inr s" by blast
  then have "on_batch_begin_times 7 (LearningRateLinearIncrease_on_train_begin
                     (LearningRateLinearIncrease_init 1 4 0 5)) = Inr s" by simp
  moreover have "on_batch_begin_times 4 (LearningRateLinearIncrease_on_train_begin
                     (LearningRateLinearIncrease_init 1 4 0 5)) = Inr s" using s(1) by simp
  ultimately show ?thesis using a s(2) w by blast
qed

section \<open>The checkpoint saver\<close>

lemma xless_trans: "xless a b \<Longrightarrow> xless b c \<Longrightarrow> xless a c"
  by (cases a; cases b; cases c) auto

lemma xless_below: "b \<noteq> NaN \<Longrightarrow> c \<noteq> NaN \<Longrightarrow> \<not> xless b c \<Longrightarrow> xless a c \<Longrightarrow> xless a b"
  by (cases a; cases b; cases c) auto

lemma xless_not_NaN: "xless a b \<Longrightarrow> a \<noteq> NaN \<and> b \<noteq> NaN"
  by (cases a; cases b) auto

lemma on_epoch_end_best:
  assumes r: "SaveDocModels_on_epoch_end f s epoch lg = Inr s'" and b: "best_val_loss s \<noteq> NaN"
  shows "\<exists>u. map_of lg ''val_loss'' = Some u \<and> best_val_loss s' \<noteq> NaN
           \<and> (\<forall>v. xless v (best_val_loss s') =
                  (xless v (best_val_loss s) \<and> (u = NaN \<or> xless v u)))"
proof -
  from r obtain u where u: "map_of lg ''val_loss'' = Some u"
    by (auto simp: SaveDocModels_on_epoch_end_def split: option.splits)
  show ?thesis
  proof (cases "xless u (best_val_loss s)")
    case True
    then have e: "best_val_loss s' = u"
      using r u by (auto simp: SaveDocModels_on_epoch_end_def Let_def)
    have "u \<noteq> NaN" using True xless_not_NaN by blast
    then show ?thesis using u True e xless_trans by blast
  next
    case False
    then have e: "s' = s" using r u by (auto simp: SaveDocModels_on_epoch_end_def)
    have "xless v (best_val_loss s) \<Longrightarrow> u = NaN \<or> xless v u" for v
      using False b xless_below[of u "best_val_loss s" v] by blast
    then show ?thesis using u b e by blast
  qed
qed

lemma epochs_best:
  "SaveDocModels_epochs f s es = Inr s' \<Longrightarrow> best_val_loss s \<noteq> NaN \<Longrightarrow>
     best_val_loss s' \<noteq> NaN \<and>
     xless v (best_val_loss s') =
       (xless v (best_val_loss s) \<and> list_all (\<lambda>u. u = NaN \<or> xless v u) (val_losses es))"
proof (induction es arbitrary: s)
  case Nil
  then show ?case by (simp add: val_losses_def)
next
  case (Cons e es)
  obtain epoch lg where e: "e = (epoch, lg)" by (cases e)
  from Cons.prems e obtain s1 where s1: "SaveDocModels_on_epoch_end f s epoch lg = Inr s1"
    and r: "SaveDocModels_epochs f s1 es = Inr s'"
    by (auto split: sum.splits)
  from on_epoch_end_best[OF s1 Cons.prems(2)] obtain u where u: "map_of lg ''val_loss'' = Some u"
    and n1: "best_val_loss s1 \<noteq> NaN"
    and b: "\<And>w. xless w (best_val_loss s1) = (xless w (best_val_loss s) \<and> (u = NaN \<or> xless w u))"
    by blast
  have vl: "val_losses (e # es) = u # val_losses es" using e u by (simp add: val_losses_def)
  show ?case using Cons.IH[OF r n1] b[of v] vl by auto
qed

text \<open>
  Claim C5, as the code has it. After \<^verbatim>\<open>on_train_begin\<close> has set the best loss to
  infinity and the epochs \<open>es\<close> have run, an epoch-end call with validation loss \<open>v\<close>
  writes the text model and the image model, to paths that embed the epoch and the loss,
  and records these paths, the logs and the epoch, if and only if \<open>v\<close> is strictly below
  infinity and strictly below every earlier validation loss of the run that is a number;
  otherwise it leaves the saver as it is. An earlier loss that is NaN is never the best
  and does not stand in the way.
\<close>

theorem checkpoint_iff_below_earlier_numbers:
  assumes run: "SaveDocModels_epochs f (SaveDocModels_on_train_begin s0) es = Inr s"
    and v: "map_of lg ''val_loss'' = Some v"
  shows "SaveDocModels_on_epoch_end f s epoch lg =
     Inr (if xless v PosInf \<and> list_all (\<lambda>u. u = NaN \<or> xless v u) (val_losses es)
          then s\<lparr>best_val_loss := v,
                 best_checkpoints_and_logs :=
                   Some (checkpoint_dir s @ ''/image_model_epoch_'' @ format_int f epoch
                           @ ''_val='' @ format_5f f v @ ''.model'',
                         checkpoint_dir s @ ''/text_model_epoch_'' @ format_int f epoch
                           @ ''_val='' @ format_5f f v @ ''.model'',
                         lg, epoch),
                 saved := saved s @
                   [(single_text_doc_model,
                     checkpoint_dir s @ ''/text_model_epoch_'' @ format_int f epoch
                           @ ''_val='' @ format_5f f v @ ''.model''),
                    (single_image_doc_model,
                     checkpoint_dir s @ ''/image_model_epoch_'' @ format_int f epoch
                           @ ''_val='' @ format_5f f v @ ''.model'')]\<rparr>
          else s)"
proof -
  have "best_val_loss (SaveDocModels_on_train_begin s0) \<noteq> NaN"
    by (simp add: SaveDocModels_on_train_begin_def)
  from epochs_best[OF run this, of v]
  have "xless v (best_val_loss s) =
          (xless v PosInf \<and> list_all (\<lambda>u. u = NaN \<or> xless v u) (val_losses es))"
    by (simp add: SaveDocModels_on_train_begin_def)
  then show ?thesis using v by (simp add: SaveDocModels_on_epoch_end_def Let_def)
qed

theorem checkpoint_iff_below_earlier_numbers_witness:
  "\<exists>s. SaveDocModels_epochs example_format (SaveDocModels_on_train_begin example_saver)
          [(0, [(''val_loss'', Fin 2)])] = Inr s
      \<and> (\<exists>s'. SaveDocModels_on_epoch_end example_format s 1 [(''val_loss'', Fin 1)] = Inr s'
             \<and> saved s' = saved s @
                 [(single_text_doc_model, ''ckpt/text_model_epoch_1_val=1.00000.model''),
                  (single_image_doc_model, ''ckpt/image_model_epoch_1_val=1.00000.model'')])
      \<and> SaveDocModels_on_epoch_end example_format s 2 [(''val_loss'', Fin 2)] = Inr s
      \<and> SaveDocModels_on_epoch_end example_format s 2 [(''val_loss'', NaN)] = Inr s"
proof -
  obtain s where run: "SaveDocModels_epochs example_format
       (SaveDocModels_on_train_begin example_saver) [(0, [(''val_loss'', Fin 2)])] = Inr s"
    by (simp add: SaveDocModels_on_epoch_end_def SaveDocModels_on_train_begin_def
        example_saver_def Let_def)
  have d: "checkpoint_dir s = ''ckpt''"
    using run by (auto simp: SaveDocModels_on_epoch_end_def SaveDocModels_on_train_begin_def
        example_saver_def Let_def)
  have a: "map_of [(''val_loss'', Fin 1)] ''val_loss'' = Some (Fin 1)" by simp
  have b: "map_of [(''val_loss'', Fin 2)] ''val_loss'' = Some (Fin 2)" by simp
  have c: "map_of [(''val_loss'', NaN)] ''val_loss'' = Some NaN" by simp
  have vl: "val_losses [(0, [(''val_loss'', Fin 2)])] = [Fin 2]" by (simp add: val_losses_def)
  have 1: "\<exists>s'. SaveDocModels_on_epoch_end example_format s 1 [(''val_loss'', Fin 1)] = Inr s'
             \<and> saved s' = saved s @
                 [(single_text_doc_model, ''ckpt/text_model_epoch_1_val=1.00000.model''),
                  (single_image_doc_model, ''ckpt/image_model_epoch_1_val=1.00000.model'')]"
    using checkpoint_iff_below_earlier_numbers[OF run a, of 1] d
    by (simp add: vl example_format_def)
  have 2: "SaveDocModels_on_epoch_end example_format s 2 [(''val_loss'', Fin 2)] = Inr s"
    using checkpoint_iff_below_earlier_numbers[OF run b, of 2] by (simp add: vl)
  have 3: "SaveDocModels_on_epoch_end example_format s 2 [(''val_loss'', NaN)] = Inr s"
    using checkpoint_iff_below_earlier_numbers[OF run c, of 2] by (simp add: vl)
  show ?thesis using run 1 2 3 by blast
qed

text \<open>
  The claim as it was stated fails: after a first epoch whose validation loss is NaN,
  an epoch with loss 1 writes both models, although 1 is not strictly less than the
  loss seen before.
\<close>

theorem checkpoint_after_nan_counterexample:
  "SaveDocModels_epochs example_format (SaveDocModels_on_train_begin example_saver)
      [(0, [(''val_loss'', NaN)]), (1, [(''val_loss'', Fin 1)])]
     = Inr (example_saver
             \<lparr>best_val_loss := Fin 1,
              best_checkpoints_and_logs :=
                Some (''ckpt/image_model_epoch_1_val=1.00000.model'',
                      ''ckpt/text_model_epoch_1_val=1.00000.model'',
                      [(''val_loss'', Fin 1)], 1),
              saved := [(single_text_doc_model, ''ckpt/text_model_epoch_1_val=1.00000.model''),
                        (single_image_doc_model, ''ckpt/image_model_epoch_1_val=1.00000.model'')]\<rparr>)
   \<and> \<not> xless (Fin 1) NaN"
  by (simp add: SaveDocModels_on_epoch_end_def SaveDocModels_on_train_begin_def
      example_saver_def example_format_def Let_def)

section \<open>The deferred plateau reducer\<close>

lemma map_of_dict_setitem:
  "map_of (dict_setitem k v lg) k' = (if k' = k then Some v else map_of lg k')"
  by (induction lg) auto

lemma val_loss_with_lr: "map_of (logs_with_lr r (Some lg)) ''val_loss'' = map_of lg ''val_loss''"
  by (simp add: logs_with_lr_def map_of_dict_setitem)

lemma entry_state:
  "seen_through_alias
     (s\<lparr>current_logs := (case logs_arg of None \<Rightarrow> PyNone | Some lg \<Rightarrow> Dict lg)\<rparr>) logs_arg
   = s\<lparr>current_logs := current_logs_after (lr s) logs_arg\<rparr>"
proof (cases logs_arg)
  case None
  then show ?thesis by (simp add: seen_through_alias_def current_logs_after_def)
next
  case (Some lg)
  then show ?thesis by (cases lg) (simp_all add: seen_through_alias_def current_logs_after_def)
qed

lemma seen_through_alias_fields:
  "lr (seen_through_alias s logs_arg) = lr s"
  "monitor (seen_through_alias s logs_arg) = monitor s"
  "val_threshold_activated (seen_through_alias s logs_arg) = val_threshold_activated s"
  by (auto simp: seen_through_alias_def split: option.splits list.splits)

lemma in_cooldown_facts:
  assumes "in_cooldown s = Inr (b, s')"
  shows "lr s' = lr s" and "val_threshold_activated s \<Longrightarrow> val_threshold_activated s'"
    and "\<not> val_threshold_activated s' \<Longrightarrow> b" and "\<not> val_threshold_activated s' \<Longrightarrow> s' = s"
  using assms
  by (auto simp: in_cooldown_def reset_def Let_def split: if_splits logs_attr.splits option.splits)

lemma in_cooldown_activated:
  "val_threshold_activated s \<Longrightarrow> in_cooldown s = plain_in_cooldown s"
  by (simp add: in_cooldown_def plain_in_cooldown_def)

lemma in_cooldown_activates:
  assumes "\<not> val_threshold_activated s" and "current_logs s = Dict lg"
    and "map_of lg ''val_loss'' = Some v" and "xless v (activation_val_loss s)"
  shows "in_cooldown s = Inr (False, reset (s\<lparr>val_threshold_activated := True\<rparr>))"
  using assms by (simp add: in_cooldown_def reset_def Let_def)

lemma in_cooldown_dormant:
  assumes "\<not> val_threshold_activated s" and "current_logs s = Dict lg"
    and "map_of lg ''val_loss'' = Some v" and "\<not> xless v (activation_val_loss s)"
  shows "in_cooldown s = Inr (True, s)"
  using assms by (simp add: in_cooldown_def)

lemma inherited_cases:
  assumes r: "ReduceLROnPlateau_on_epoch_end in_cd f32 s epoch logs_arg = Inr s'"
  obtains
    (absent) "map_of (logs_with_lr (lr s) logs_arg) (monitor s) = None"
      "s' = seen_through_alias s logs_arg"
  | (improved) b1 s1 current where
      "in_cd (seen_through_alias s logs_arg) = Inr (b1, s1)"
      "s' = (if b1 then s1\<lparr>cooldown_counter := cooldown_counter s1 - 1, wait := 0\<rparr> else s1)
              \<lparr>best := current, wait := 0\<rparr>"
  | (cooling) b1 s1 where
      "in_cd (seen_through_alias s logs_arg) = Inr (b1, s1)"
      "in_cd (if b1 then s1\<lparr>cooldown_counter := cooldown_counter s1 - 1, wait := 0\<rparr> else s1)
         = Inr (True, s')"
  | (counted) b1 s1 s3 where
      "in_cd (seen_through_alias s logs_arg) = Inr (b1, s1)"
      "in_cd (if b1 then s1\<lparr>cooldown_counter := cooldown_counter s1 - 1, wait := 0\<rparr> else s1)
         = Inr (False, s3)"
      "val_threshold_activated s' = val_threshold_activated s3"
proof -
  define s0 where "s0 = seen_through_alias s logs_arg"
  define lg' where "lg' = logs_with_lr (lr s) logs_arg"
  have u: "ReduceLROnPlateau_on_epoch_end in_cd f32 s epoch logs_arg =
     (case map_of lg' (monitor s0) of
           None \<Rightarrow> Inr s0
         | Some current \<Rightarrow>
             (case in_cd s0 of
                Inl e \<Rightarrow> Inl e
              | Inr (b1, s1) \<Rightarrow>
                  let s2 = (if b1 then s1\<lparr>cooldown_counter := cooldown_counter s1 - 1, wait := 0\<rparr>
                            else s1)
                  in if monitor_op s2 current (best s2)
                     then Inr (s2\<lparr>best := current, wait := 0\<rparr>)
                     else
                       (case in_cd s2 of
                          Inl e \<Rightarrow> Inl e
                        | Inr (b2, s3) \<Rightarrow>
                            if \<not> b2 then
                              let s4 = s3\<lparr>wait := wait s3 + 1\<rparr>
                              in if wait s4 \<ge> patience s4 then
                                   if lr s4 > min_lr s4
                                   then Inr (s4\<lparr>lr := f32 (max (lr s4 * factor s4) (min_lr s4)),
                                                 cooldown_counter := cooldown s4, wait := 0\<rparr>)
                                   else Inr s4
                                 else Inr s4
                            else Inr s3)))"
    unfolding ReduceLROnPlateau_on_epoch_end_def s0_def lg'_def Let_def ..
  have ms: "monitor s0 = monitor s" by (simp add: s0_def seen_through_alias_fields)
  show thesis
  proof (cases "map_of lg' (monitor s0)")
    case None
    then have e: "s' = s0" using r unfolding u by simp
    have "map_of lg' (monitor s) = None" using None ms by simp
    then show thesis using absent e by (simp add: s0_def lg'_def)
  next
    case (Some current)
    from r Some obtain b1 s1 where c1: "in_cd s0 = Inr (b1, s1)"
      unfolding u by (cases "in_cd s0") auto
    define s2 where "s2 = (if b1 then s1\<lparr>cooldown_counter := cooldown_counter s1 - 1, wait := 0\<rparr> else s1)"
    show thesis
    proof (cases "monitor_op s2 current (best s2)")
      case True
      then have "s' = s2\<lparr>best := current, wait := 0\<rparr>"
        using r Some c1 unfolding u s2_def by (simp add: Let_def)
      then show thesis using improved[of b1 s1 current] c1 unfolding s0_def s2_def by simp
    next
      case False
      from r Some c1 False obtain b2 s3 where c2: "in_cd s2 = Inr (b2, s3)"
        unfolding u s2_def by (cases "in_cd (if b1 then s1\<lparr>cooldown_counter := cooldown_counter s1 - 1, wait := 0\<rparr> else s1)") (auto simp: Let_def)
      show thesis
      proof (cases b2)
        case True
        then have "s' = s3"
          using r Some c1 False c2 unfolding u s2_def by (simp add: Let_def)
        then show thesis using cooling[of b1 s1] c1 c2 True unfolding s0_def s2_def by simp
      next
        case nb: False
        then have "val_threshold_activated s' = val_threshold_activated s3"
          using r Some c1 False c2 unfolding u s2_def by (auto simp: Let_def split: if_splits)
        then show thesis using counted[of b1 s1 s3] c1 c2 nb unfolding s0_def s2_def by simp
      qed
    qed
  qed
qed


lemma on_epoch_end_cases:
  assumes r: "ReduceLROnPlateauAfterValLoss_on_epoch_end f32 s epoch logs_arg = Inr s'"
  obtains
    (absent) "map_of (logs_with_lr (lr s) logs_arg) (monitor s) = None"
      "s' = s\<lparr>current_logs := current_logs_after (lr s) logs_arg\<rparr>"
  | (improved) b1 s1 current where
      "in_cooldown (s\<lparr>current_logs := current_logs_after (lr s) logs_arg\<rparr>) = Inr (b1, s1)"
      "s' = (if b1 then s1\<lparr>cooldown_counter := cooldown_counter s1 - 1, wait := 0\<rparr> else s1)
              \<lparr>best := current, wait := 0\<rparr>"
  | (cooling) b1 s1 where
      "in_cooldown (s\<lparr>current_logs := current_logs_after (lr s) logs_arg\<rparr>) = Inr (b1, s1)"
      "in_cooldown (if b1 then s1\<lparr>cooldown_counter := cooldown_counter s1 - 1, wait := 0\<rparr> else s1)
         = Inr (True, s')"
  | (counted) b1 s1 s3 where
      "in_cooldown (s\<lparr>current_logs := current_logs_after (lr s) logs_arg\<rparr>) = Inr (b1, s1)"
      "in_cooldown (if b1 then s1\<lparr>cooldown_counter := cooldown_counter s1 - 1, wait := 0\<rparr> else s1)
         = Inr (False, s3)"
      "val_threshold_activated s' = val_threshold_activated s3"
proof -
  let ?t = "s\<lparr>current_logs := (case logs_arg of None \<Rightarrow> PyNone | Some lg \<Rightarrow> Dict lg)\<rparr>"
  have r': "ReduceLROnPlateau_on_epoch_end in_cooldown f32 ?t epoch logs_arg = Inr s'"
    using r by (simp add: ReduceLROnPlateauAfterValLoss_on_epoch_end_def)
  have f: "lr ?t = lr s" "monitor ?t = monitor s" by simp_all
  from r' show thesis
  proof (cases rule: inherited_cases)
    case absent
    then show ?thesis using that(1) unfolding entry_state f by blast
  next
    case (improved b1 s1 current)
    then show ?thesis using that(2)[of b1 s1 current] unfolding entry_state by blast
  next
    case (cooling b1 s1)
    then show ?thesis using that(3)[of b1 s1] unfolding entry_state by blast
  next
    case (counted b1 s1 s3)
    then show ?thesis using that(4)[of b1 s1 s3] unfolding entry_state by blast
  qed
qed

lemma on_epoch_end_lr_cases:
  assumes r: "ReduceLROnPlateauAfterValLoss_on_epoch_end f32 s epoch logs_arg = Inr s'"
  shows "lr s' = lr s \<or> val_threshold_activated s'"
proof -
  from r show ?thesis
  proof (cases rule: on_epoch_end_cases)
    case absent
    then show ?thesis by simp
  next
    case (improved b1 s1 current)
    then show ?thesis using in_cooldown_facts(1)[OF improved(1)] by simp
  next
    case (cooling b1 s1)
    have "lr s1 = lr s" using in_cooldown_facts(1)[OF cooling(1)] by simp
    then show ?thesis using in_cooldown_facts(1)[OF cooling(2)] by (simp split: if_splits)
  next
    case (counted b1 s1 s3)
    then show ?thesis using in_cooldown_facts(3)[OF counted(2)] by blast
  qed
qed

lemma on_epoch_end_no_reduction:
  assumes r: "ReduceLROnPlateauAfterValLoss_on_epoch_end f32 s epoch logs_arg = Inr s'"
    and n: "\<not> val_threshold_activated s'"
  shows "lr s' = lr s"
  using on_epoch_end_lr_cases[OF r] n by blast

lemma on_epoch_end_flag_stays:
  assumes r: "ReduceLROnPlateauAfterValLoss_on_epoch_end f32 s epoch logs_arg = Inr s'"
    and a: "val_threshold_activated s"
  shows "val_threshold_activated s'"
proof -
  from r show ?thesis
  proof (cases rule: on_epoch_end_cases)
    case absent
    then show ?thesis using a by simp
  next
    case (improved b1 s1 current)
    then show ?thesis using in_cooldown_facts(2)[OF improved(1)] a by simp
  next
    case (cooling b1 s1)
    have "val_threshold_activated s1" using in_cooldown_facts(2)[OF cooling(1)] a by simp
    then show ?thesis using in_cooldown_facts(2)[OF cooling(2)] by (simp split: if_splits)
  next
    case (counted b1 s1 s3)
    have "val_threshold_activated s1" using in_cooldown_facts(2)[OF counted(1)] a by simp
    then show ?thesis using in_cooldown_facts(2)[OF counted(2)] counted(3) by (simp split: if_splits)
  qed
qed

lemma on_epoch_end_dormant:
  assumes n: "\<not> val_threshold_activated s"
    and v: "map_of lg ''val_loss'' = Some v" and b: "\<not> xless v (activation_val_loss s)"
    and r: "ReduceLROnPlateauAfterValLoss_on_epoch_end f32 s epoch (Some lg) = Inr s'"
  shows "\<not> val_threshold_activated s'"
proof -
  have ne: "lg \<noteq> []" using v by auto
  define lg' where "lg' = logs_with_lr (lr s) (Some lg)"
  have cl: "current_logs_after (lr s) (Some lg) = Dict lg'"
    using ne by (cases lg) (simp_all add: current_logs_after_def lg'_def)
  have v': "map_of lg' ''val_loss'' = Some v" using v by (simp add: lg'_def val_loss_with_lr)
  have c: "in_cooldown t = Inr (True, t)"
    if "\<not> val_threshold_activated t" "current_logs t = Dict lg'"
       "activation_val_loss t = activation_val_loss s" for t
    using that v' b by (intro in_cooldown_dormant[where lg = lg' and v = v]) simp_all
  define s0 where "s0 = s\<lparr>current_logs := Dict lg'\<rparr>"
  define s2 where "s2 = s0\<lparr>cooldown_counter := cooldown_counter s0 - 1, wait := 0\<rparr>"
  have c1: "in_cooldown s0 = Inr (True, s0)" using n by (intro c) (simp_all add: s0_def)
  have c2: "in_cooldown s2 = Inr (True, s2)" using n by (intro c) (simp_all add: s0_def s2_def)
  have n2: "\<not> val_threshold_activated s2" using n by (simp add: s0_def s2_def)
  from r show ?thesis
  proof (cases rule: on_epoch_end_cases)
    case absent
    then show ?thesis using n by simp
  next
    case (improved b1 s1 current)
    then have "b1" "s1 = s0" using c1 by (simp_all add: s0_def cl)
    then show ?thesis using improved(2) n by (simp add: s0_def)
  next
    case (cooling b1 s1)
    then have "b1" "s1 = s0" using c1 by (simp_all add: s0_def cl)
    then have "in_cooldown s2 = Inr (True, s')" using cooling(2) by (simp add: s2_def)
    then have "s' = s2" using c2 by simp
    then show ?thesis using n2 by simp
  next
    case (counted b1 s1 s3)
    then have "b1" "s1 = s0" using c1 by (simp_all add: s0_def cl)
    then have "in_cooldown s2 = Inr (False, s3)" using counted(2) by (simp add: s2_def)
    then show ?thesis using c2 by simp
  qed
qed

lemma on_epoch_end_absent:
  assumes "map_of (logs_with_lr (lr s) logs_arg) (monitor s) = None"
  shows "ReduceLROnPlateauAfterValLoss_on_epoch_end f32 s epoch logs_arg =
           Inr (s\<lparr>current_logs := current_logs_after (lr s) logs_arg\<rparr>)"
proof -
  let ?t = "s\<lparr>current_logs := (case logs_arg of None \<Rightarrow> PyNone | Some lg \<Rightarrow> Dict lg)\<rparr>"
  have "map_of (logs_with_lr (lr ?t) logs_arg) (monitor (seen_through_alias ?t logs_arg)) = None"
    using assms by (simp add: seen_through_alias_fields)
  then show ?thesis
    unfolding ReduceLROnPlateauAfterValLoss_on_epoch_end_def ReduceLROnPlateau_on_epoch_end_def
      Let_def
    by (simp add: entry_state)
qed


lemma activated_is_plain:
  assumes a: "val_threshold_activated s"
  shows "ReduceLROnPlateau_on_epoch_end in_cooldown f32 s epoch logs_arg =
         ReduceLROnPlateau_on_epoch_end plain_in_cooldown f32 s epoch logs_arg"
proof -
  let ?s0 = "seen_through_alias s logs_arg"
  let ?s2 = "if 0 < cooldown_counter ?s0
             then ?s0\<lparr>cooldown_counter := cooldown_counter ?s0 - 1, wait := 0\<rparr> else ?s0"
  have a0: "val_threshold_activated ?s0" using a by (simp add: seen_through_alias_fields)
  have p1: "plain_in_cooldown ?s0 = Inr (0 < cooldown_counter ?s0, ?s0)"
    by (simp add: plain_in_cooldown_def)
  have c1: "in_cooldown ?s0 = Inr (0 < cooldown_counter ?s0, ?s0)"
    using in_cooldown_activated[OF a0] p1 by simp
  have a2: "val_threshold_activated ?s2" using a0 by simp
  have c2: "in_cooldown ?s2 = plain_in_cooldown ?s2" using in_cooldown_activated[OF a2] .
  show ?thesis
    unfolding ReduceLROnPlateau_on_epoch_end_def Let_def
    by (simp only: c1 p1 sum.case prod.case c2)
qed

lemma plain_total:
  assumes a: "val_threshold_activated s"
  shows "\<exists>sc. ReduceLROnPlateau_on_epoch_end plain_in_cooldown f32 s epoch logs_arg = Inr sc
            \<and> val_threshold_activated sc"
proof -
  let ?s0 = "seen_through_alias s logs_arg"
  have a0: "val_threshold_activated ?s0" using a by (simp add: seen_through_alias_fields)
  show ?thesis
  proof (cases "map_of (logs_with_lr (lr s) logs_arg) (monitor ?s0)")
    case None
    then show ?thesis using a0
      unfolding ReduceLROnPlateau_on_epoch_end_def Let_def by simp
  next
    case (Some current)
    show ?thesis
      unfolding ReduceLROnPlateau_on_epoch_end_def Let_def plain_in_cooldown_def
      using a0 by (simp add: Some)
  qed
qed

lemma on_epoch_end_activates:
  assumes n: "\<not> val_threshold_activated s"
    and v: "map_of lg ''val_loss'' = Some v" and b: "xless v (activation_val_loss s)"
    and m: "map_of (logs_with_lr (lr s) (Some lg)) (monitor s) = Some current"
  shows "ReduceLROnPlateauAfterValLoss_on_epoch_end f32 s epoch (Some lg) =
         ReduceLROnPlateau_on_epoch_end plain_in_cooldown f32
           (reset (s\<lparr>val_threshold_activated := True, current_logs := Dict lg\<rparr>)) epoch (Some lg)"
proof -
  have ne: "lg \<noteq> []" using v by auto
  define lg' where "lg' = logs_with_lr (lr s) (Some lg)"
  let ?t = "s\<lparr>current_logs := Dict lg\<rparr>"
  let ?r = "reset (s\<lparr>val_threshold_activated := True, current_logs := Dict lg\<rparr>)"
  define sa where "sa = s\<lparr>current_logs := Dict lg'\<rparr>"
  define sr where "sr = reset (s\<lparr>val_threshold_activated := True, current_logs := Dict lg'\<rparr>)"
  have e1: "seen_through_alias ?t (Some lg) = sa"
    using ne by (cases lg) (simp_all add: seen_through_alias_def sa_def lg'_def)
  have e2: "seen_through_alias ?r (Some lg) = sr"
    using ne by (cases lg) (simp_all add: seen_through_alias_def sr_def lg'_def reset_def)
  have l1: "logs_with_lr (lr ?t) (Some lg) = lg'" by (simp add: lg'_def)
  have l2: "logs_with_lr (lr ?r) (Some lg) = lg'" by (simp add: lg'_def reset_def)
  have m1: "map_of lg' (monitor sa) = Some current" using m by (simp add: sa_def lg'_def)
  have m2: "map_of lg' (monitor sr) = Some current" using m by (simp add: sr_def lg'_def reset_def)
  have v': "map_of lg' ''val_loss'' = Some v" using v by (simp add: lg'_def val_loss_with_lr)
  have "in_cooldown sa = Inr (False, reset (sa\<lparr>val_threshold_activated := True\<rparr>))"
    using n v' b by (intro in_cooldown_activates[where lg = lg' and v = v]) (simp_all add: sa_def)
  moreover have "reset (sa\<lparr>val_threshold_activated := True\<rparr>) = sr"
    by (simp add: sa_def sr_def reset_def)
  ultimately have c1: "in_cooldown sa = Inr (False, sr)" by simp
  have p1: "plain_in_cooldown sr = Inr (False, sr)"
    by (simp add: plain_in_cooldown_def sr_def reset_def)
  have ar: "val_threshold_activated sr" by (simp add: sr_def reset_def)
  have c2: "in_cooldown sr = Inr (False, sr)" using in_cooldown_activated[OF ar] p1 by simp
  show ?thesis
    unfolding ReduceLROnPlateauAfterValLoss_on_epoch_end_def ReduceLROnPlateau_on_epoch_end_def
      Let_def option.case e1 e2 l1 l2 m1 m2 c1 p1 sum.case prod.case if_False c2
    ..
qed


text \<open>
  Claim C6, as the code has it. While the activation flag is unset \<^verbatim>\<open>in_cooldown()\<close>
  answers True, and an epoch end that leaves the flag unset leaves the learning rate as
  it was. At an epoch end whose logs hold the monitored quantity and whose validation
  loss is strictly below \<open>activation_val_loss\<close>, \<^verbatim>\<open>in_cooldown()\<close> sets the flag and
  resets the detector (best value to the infinity of the mode, cooldown counter and wait
  counter to 0), and the epoch end goes on exactly as the framework's own reducer does
  from the reset state. A validation loss that is not below the threshold leaves the
  flag unset, and so does an epoch end whose logs lack the monitored quantity: it only
  stores the logs. A set flag is never unset, and with the flag set the reducer is the
  framework's own: \<^verbatim>\<open>in_cooldown()\<close> is the plain test of the cooldown counter.
\<close>

theorem deferred_plateau_reducer_monitored:
  "(in_cooldown s = Inr (b, sa) \<and> \<not> val_threshold_activated sa \<longrightarrow> b)
   \<and> (ReduceLROnPlateauAfterValLoss_on_epoch_end rnd s epoch logs_arg = Inr sb
        \<and> \<not> val_threshold_activated sb \<longrightarrow> lr sb = lr s)
   \<and> (\<not> val_threshold_activated s \<and> map_of lg ''val_loss'' = Some v
        \<and> xless v (activation_val_loss s)
        \<and> map_of (logs_with_lr (lr s) (Some lg)) (monitor s) = Some current \<longrightarrow>
          ReduceLROnPlateauAfterValLoss_on_epoch_end rnd s epoch (Some lg) =
            ReduceLROnPlateau_on_epoch_end plain_in_cooldown rnd
              (reset (s\<lparr>val_threshold_activated := True, current_logs := Dict lg\<rparr>))
              epoch (Some lg)
        \<and> (\<exists>sc. ReduceLROnPlateauAfterValLoss_on_epoch_end rnd s epoch (Some lg) = Inr sc
                \<and> val_threshold_activated sc))
   \<and> (\<not> val_threshold_activated s \<and> current_logs s = Dict lg
        \<and> map_of lg ''val_loss'' = Some v \<and> xless v (activation_val_loss s) \<longrightarrow>
        in_cooldown s = Inr (False, reset (s\<lparr>val_threshold_activated := True\<rparr>)))
   \<and> cooldown_counter (reset s) = 0 \<and> wait (reset s) = 0
   \<and> best (reset s) = (if mode_min s then PosInf else NegInf)
   \<and> (\<not> val_threshold_activated s \<and> map_of lg ''val_loss'' = Some v
        \<and> \<not> xless v (activation_val_loss s)
        \<and> ReduceLROnPlateauAfterValLoss_on_epoch_end rnd s epoch (Some lg) = Inr sd \<longrightarrow>
        \<not> val_threshold_activated sd)
   \<and> (map_of (logs_with_lr (lr s) logs_arg) (monitor s) = None \<longrightarrow>
        ReduceLROnPlateauAfterValLoss_on_epoch_end rnd s epoch logs_arg =
          Inr (s\<lparr>current_logs := current_logs_after (lr s) logs_arg\<rparr>))
   \<and> (val_threshold_activated s
        \<and> ReduceLROnPlateauAfterValLoss_on_epoch_end rnd s epoch logs_arg = Inr sb \<longrightarrow>
        val_threshold_activated sb)
   \<and> (val_threshold_activated s \<longrightarrow>
        in_cooldown s = plain_in_cooldown s
        \<and> ReduceLROnPlateauAfterValLoss_on_epoch_end rnd s epoch logs_arg =
            ReduceLROnPlateau_on_epoch_end plain_in_cooldown rnd
              (s\<lparr>current_logs := (case logs_arg of None \<Rightarrow> PyNone | Some lg \<Rightarrow> Dict lg)\<rparr>)
              epoch logs_arg)"
proof -
  have 1: "in_cooldown s = Inr (b, sa) \<and> \<not> val_threshold_activated sa \<longrightarrow> b"
    using in_cooldown_facts(3) by blast
  have 2: "ReduceLROnPlateauAfterValLoss_on_epoch_end rnd s epoch logs_arg = Inr sb
        \<and> \<not> val_threshold_activated sb \<longrightarrow> lr sb = lr s"
    using on_epoch_end_no_reduction by blast
  have 3: "ReduceLROnPlateauAfterValLoss_on_epoch_end rnd s epoch (Some lg) =
            ReduceLROnPlateau_on_epoch_end plain_in_cooldown rnd
              (reset (s\<lparr>val_threshold_activated := True, current_logs := Dict lg\<rparr>))
              epoch (Some lg)
        \<and> (\<exists>sc. ReduceLROnPlateauAfterValLoss_on_epoch_end rnd s epoch (Some lg) = Inr sc
                \<and> val_threshold_activated sc)"
    if h: "\<not> val_threshold_activated s \<and> map_of lg ''val_loss'' = Some v
        \<and> xless v (activation_val_loss s)
        \<and> map_of (logs_with_lr (lr s) (Some lg)) (monitor s) = Some current"
  proof -
    have e: "ReduceLROnPlateauAfterValLoss_on_epoch_end rnd s epoch (Some lg) =
            ReduceLROnPlateau_on_epoch_end plain_in_cooldown rnd
              (reset (s\<lparr>val_threshold_activated := True, current_logs := Dict lg\<rparr>))
              epoch (Some lg)"
      using h by (intro on_epoch_end_activates[where v = v and current = current]) simp_all
    have "val_threshold_activated
            (reset (s\<lparr>val_threshold_activated := True, current_logs := Dict lg\<rparr>))"
      by (simp add: reset_def)
    from plain_total[OF this, of rnd epoch "Some lg"] e show ?thesis by simp
  qed
  have 4: "\<not> val_threshold_activated s \<and> current_logs s = Dict lg
        \<and> map_of lg ''val_loss'' = Some v \<and> xless v (activation_val_loss s) \<longrightarrow>
        in_cooldown s = Inr (False, reset (s\<lparr>val_threshold_activated := True\<rparr>))"
    using in_cooldown_activates by blast
  have 5: "cooldown_counter (reset s) = 0 \<and> wait (reset s) = 0
     \<and> best (reset s) = (if mode_min s then PosInf else NegInf)"
    by (simp add: reset_def)
  have 6: "\<not> val_threshold_activated s \<and> map_of lg ''val_loss'' = Some v
        \<and> \<not> xless v (activation_val_loss s)
        \<and> ReduceLROnPlateauAfterValLoss_on_epoch_end rnd s epoch (Some lg) = Inr sd \<longrightarrow>
        \<not> val_threshold_activated sd"
    using on_epoch_end_dormant by blast
  have 7: "map_of (logs_with_lr (lr s) logs_arg) (monitor s) = None \<longrightarrow>
        ReduceLROnPlateauAfterValLoss_on_epoch_end rnd s epoch logs_arg =
          Inr (s\<lparr>current_logs := current_logs_after (lr s) logs_arg\<rparr>)"
    using on_epoch_end_absent by blast
  have 8: "val_threshold_activated s
        \<and> ReduceLROnPlateauAfterValLoss_on_epoch_end rnd s epoch logs_arg = Inr sb \<longrightarrow>
        val_threshold_activated sb"
    using on_epoch_end_flag_stays by blast
  have 9: "val_threshold_activated s \<longrightarrow>
        in_cooldown s = plain_in_cooldown s
        \<and> ReduceLROnPlateauAfterValLoss_on_epoch_end rnd s epoch logs_arg =
            ReduceLROnPlateau_on_epoch_end plain_in_cooldown rnd
              (s\<lparr>current_logs := (case logs_arg of None \<Rightarrow> PyNone | Some lg \<Rightarrow> Dict lg)\<rparr>)
              epoch logs_arg"
    using in_cooldown_activated[of s]
      activated_is_plain[of "s\<lparr>current_logs := (case logs_arg of None \<Rightarrow> PyNone | Some lg \<Rightarrow> Dict lg)\<rparr>"
         rnd epoch logs_arg]
    by (simp add: ReduceLROnPlateauAfterValLoss_on_epoch_end_def)
  from 1 2 3 4 5 6 7 8 9 show ?thesis by (intro conjI impI) blast+
qed

theorem deferred_plateau_reducer_monitored_witness:
  "ReduceLROnPlateauAfterValLoss_on_epoch_end example_float32 example_reducer 0
      (Some [(''val_loss'', Fin 1)])
     = Inr (example_reducer\<lparr>best := Fin 1, cooldown_counter := 0, wait := 0,
              val_threshold_activated := True,
              current_logs := Dict [(''val_loss'', Fin 1), (''lr'', Fin 1)]\<rparr>)
   \<and> ReduceLROnPlateauAfterValLoss_on_epoch_end example_float32 example_reducer 0
      (Some [(''val_loss'', Fin 3)])
     = Inr (example_reducer\<lparr>best := Fin 3, cooldown_counter := - 1, wait := 0,
              current_logs := Dict [(''val_loss'', Fin 3), (''lr'', Fin 1)]\<rparr>)"
proof -
  have n: "\<not> val_threshold_activated example_reducer" by (simp add: example_reducer_def)
  have a: "xless (Fin 1) (activation_val_loss example_reducer)"
    by (simp add: example_reducer_def)
  have m: "map_of (logs_with_lr (lr example_reducer) (Some [(''val_loss'', Fin 1)]))
             (monitor example_reducer) = Some (Fin 1)"
    by (simp add: example_reducer_def logs_with_lr_def)
  have v: "map_of [(''val_loss'', Fin 1)] ''val_loss'' = Some (Fin 1)" by simp
  have "ReduceLROnPlateauAfterValLoss_on_epoch_end example_float32 example_reducer 0
          (Some [(''val_loss'', Fin 1)]) =
        ReduceLROnPlateau_on_epoch_end plain_in_cooldown example_float32
          (reset (example_reducer\<lparr>val_threshold_activated := True,
                    current_logs := Dict [(''val_loss'', Fin 1)]\<rparr>)) 0
          (Some [(''val_loss'', Fin 1)])"
    using deferred_plateau_reducer_monitored
            [where s = example_reducer and lg = "[(''val_loss'', Fin 1)]" and v = "Fin 1"
               and current = "Fin 1" and epoch = 0 and rnd = example_float32] n a m v
    by blast
  also have "\<dots> = Inr (example_reducer\<lparr>best := Fin 1, cooldown_counter := 0, wait := 0,
              val_threshold_activated := True,
              current_logs := Dict [(''val_loss'', Fin 1), (''lr'', Fin 1)]\<rparr>)"
    by (simp add: ReduceLROnPlateau_on_epoch_end_def plain_in_cooldown_def logs_with_lr_def
        seen_through_alias_def monitor_op_def reset_def example_reducer_def Let_def)
  finally have 1: "ReduceLROnPlateauAfterValLoss_on_epoch_end example_float32 example_reducer 0
      (Some [(''val_loss'', Fin 1)])
     = Inr (example_reducer\<lparr>best := Fin 1, cooldown_counter := 0, wait := 0,
              val_threshold_activated := True,
              current_logs := Dict [(''val_loss'', Fin 1), (''lr'', Fin 1)]\<rparr>)" .
  have 2: "ReduceLROnPlateauAfterValLoss_on_epoch_end example_float32 example_reducer 0
      (Some [(''val_loss'', Fin 3)])
     = Inr (example_reducer\<lparr>best := Fin 3, cooldown_counter := - 1, wait := 0,
              current_logs := Dict [(''val_loss'', Fin 3), (''lr'', Fin 1)]\<rparr>)"
    by (simp add: ReduceLROnPlateauAfterValLoss_on_epoch_end_def
        ReduceLROnPlateau_on_epoch_end_def in_cooldown_def logs_with_lr_def
        seen_through_alias_def monitor_op_def example_reducer_def Let_def)
  show ?thesis using 1 2 by blast
qed

text \<open>
  The claim as it was stated fails: a reducer that monitors \<^verbatim>\<open>val_acc\<close> gets logs with a
  validation loss of 1, below its activation threshold 2, and without \<^verbatim>\<open>val_acc\<close>. The
  inherited method returns before it asks \<^verbatim>\<open>in_cooldown()\<close>, and the flag stays unset.
\<close>

theorem flag_unset_without_monitored_quantity_counterexample:
  "ReduceLROnPlateauAfterValLoss_on_epoch_end example_float32 example_reducer_acc 0
      (Some [(''val_loss'', Fin 1)])
     = Inr (example_reducer_acc
              \<lparr>current_logs := Dict [(''val_loss'', Fin 1), (''lr'', Fin 1)]\<rparr>)
   \<and> xless (Fin 1) (activation_val_loss example_reducer_acc)
   \<and> \<not> val_threshold_activated
         (example_reducer_acc\<lparr>current_logs := Dict [(''val_loss'', Fin 1), (''lr'', Fin 1)]\<rparr>)"
  by (simp add: ReduceLROnPlateauAfterValLoss_on_epoch_end_def
      ReduceLROnPlateau_on_epoch_end_def logs_with_lr_def seen_through_alias_def
      example_reducer_acc_def example_reducer_def Let_def)

section \<open>The document collection is changed by the epoch shuffler only\<close>

lemma getitem_heap:
  assumes "data_in ds < length h"
  shows "\<exists>xs. fst (snd (DocumentSequence_getitem ds c h g idx)) = h @ [xs]"
proof -
  from batch_docs_heap[OF assms] obtain r xs where b: "batch_docs ds h idx = (r, h @ [xs])"
    by blast
  show ?thesis
    by (cases r; cases "process_docs ds c ((h @ [xs]) ! projr r) g"; cases "fst (process_docs ds c ((h @ [xs]) ! projr r) g)")
       (auto simp: DocumentSequence_getitem_def b)
qed

text \<open>
  Claim C8. \<^verbatim>\<open>__getitem__\<close> leaves every list object that existed before the call as
  it was, the document collection among them, whatever the batch index and whether it
  returns or raises: the slice is a new object and the wraparound extends that object.
  \<^verbatim>\<open>on_epoch_end\<close> leaves the heap as it is when \<open>shuffle_docs\<close> is false; otherwise it
  changes the collection only, to a permutation of itself. It has no result besides
  the new heap and generator state.
\<close>

theorem data_in_changed_by_shuffler_only:
  assumes "data_in ds < length h"
  shows "take (length h) (fst (snd (DocumentSequence_getitem ds c h g idx))) = h
    \<and> fst (snd (DocumentSequence_getitem ds c h g idx)) ! data_in ds = h ! data_in ds
    \<and> (\<not> shuffle_docs ds \<longrightarrow> DocumentSequence_on_epoch_end ds h g = (h, g))
    \<and> (shuffle_docs ds \<longrightarrow>
          mset (fst (DocumentSequence_on_epoch_end ds h g) ! data_in ds) = mset (h ! data_in ds)
        \<and> length (fst (DocumentSequence_on_epoch_end ds h g)) = length h
        \<and> (\<forall>a. a \<noteq> data_in ds \<longrightarrow> fst (DocumentSequence_on_epoch_end ds h g) ! a = h ! a))"
proof -
  from getitem_heap[OF assms] obtain xs where
    x: "fst (snd (DocumentSequence_getitem ds c h g idx)) = h @ [xs]" by blast
  have 1: "take (length h) (fst (snd (DocumentSequence_getitem ds c h g idx))) = h"
    by (simp add: x)
  have 2: "fst (snd (DocumentSequence_getitem ds c h g idx)) ! data_in ds = h ! data_in ds"
    using assms by (simp add: x nth_append)
  have 3: "\<not> shuffle_docs ds \<longrightarrow> DocumentSequence_on_epoch_end ds h g = (h, g)"
    by (simp add: DocumentSequence_on_epoch_end_def)
  have e: "shuffle_docs ds \<Longrightarrow>
     fst (DocumentSequence_on_epoch_end ds h g) = h[data_in ds := fst (shuffle (h ! data_in ds) g)]"
    by (simp add: DocumentSequence_on_epoch_end_def split: prod.splits)
  have 4: "shuffle_docs ds \<longrightarrow>
          mset (fst (DocumentSequence_on_epoch_end ds h g) ! data_in ds) = mset (h ! data_in ds)
        \<and> length (fst (DocumentSequence_on_epoch_end ds h g)) = length h
        \<and> (\<forall>a. a \<noteq> data_in ds \<longrightarrow> fst (DocumentSequence_on_epoch_end ds h g) ! a = h ! a)"
    using assms by (auto simp: e shuffle_mset)
  show ?thesis using 1 2 3 4 by blast
qed

theorem data_in_changed_by_shuffler_only_witness:
  "fst (snd (DocumentSequence_getitem example_sequence example_collaborators
               [[example_document, example_document2]] example_rng 0)) ! 0
     = [example_document, example_document2]
   \<and> mset (fst (DocumentSequence_on_epoch_end example_sequence
                  [[example_document, example_document2]] example_rng) ! 0)
     = mset [example_document, example_document2]"
  using data_in_changed_by_shuffler_only
          [of example_sequence "[[example_document, example_document2]]"
              example_collaborators example_rng 0]
  by (simp add: example_sequence_def)

section \<open>Padding one document\<close>

lemma np_zeros_Inr:
  "np_zeros r ts = Inr a \<Longrightarrow>
     0 \<le> r \<and> a = \<lparr>tshape = ts, items = replicate (nat r) (replicate (prod_list ts) 0)\<rparr>"
  by (auto simp: np_zeros_def split: if_splits)

lemma np_zeros_negative: "r < 0 \<Longrightarrow> np_zeros r ts = Inl ValueError"
  by (simp add: np_zeros_def)

lemma shape_last_matrix: "tshape a \<noteq> [] \<Longrightarrow> shape_last a = last (tshape a)"
  by (simp add: shape_last_def shape_def)

lemma np_vstack_pair:
  assumes "tshape a \<noteq> []" and "tshape b \<noteq> []"
  shows "np_vstack [a, b] =
     (if tshape b = tshape a then Inr \<lparr>tshape = tshape a, items = items a @ items b\<rparr>
      else Inl ValueError)"
  using assms by (simp add: np_vstack_def atleast_2d_def)

lemma set_column0_zeros:
  "set_column0 \<lparr>tshape = [w], items = replicate k (replicate w 0)\<rparr> 1 =
     (if w = 0 then Inl IndexError
      else Inr \<lparr>tshape = [w], items = replicate k (1 # replicate (w - 1) 0)\<rparr>)"
proof (cases w)
  case 0
  then show ?thesis by (simp add: set_column0_def)
next
  case (Suc n)
  then show ?thesis by (simp add: set_column0_def)
qed

lemma singleton_last: "xs \<noteq> [] \<Longrightarrow> [last xs] = xs \<Longrightarrow> \<exists>d. xs = [d]"
  by (cases xs) auto

lemma materialize_Inr:
  assumes m: "materialize ds c ci ct = Inr r"
    and i2: "\<And>a. images_to_matrix c ci (image_matrix ds) (image_idx2row ds) = Inr a
               \<Longrightarrow> tshape a \<noteq> []"
    and t2: "\<And>a. text_to_matrix c ct (vocab ds) (seq_len (args ds)) = Inr a
               \<Longrightarrow> tshape a \<noteq> []"
  shows "\<exists>imgs tm d w.
      \<not> end2end (args ds)
    \<and> images_to_matrix c ci (image_matrix ds) (image_idx2row ds) = Inr imgs
    \<and> text_to_matrix c ct (vocab ds) (seq_len (args ds)) = Inr tm
    \<and> tshape imgs = [d] \<and> tshape tm = [w] \<and> 0 < w
    \<and> image_n r = nrows imgs \<and> text_n r = nrows tm
    \<and> int (nrows imgs) \<le> image_target ds \<and> int (nrows tm) \<le> text_target ds
    \<and> doc_images r = \<lparr>tshape = [d],
          items = items imgs @ replicate (nat (image_target ds) - nrows imgs) (replicate d 0)\<rparr>
    \<and> doc_text r = \<lparr>tshape = [w],
          items = items tm @ replicate (nat (text_target ds) - nrows tm)
                                (1 # replicate (w - 1) 0)\<rparr>"
proof -
  have ne: "\<not> end2end (args ds)" using m materialize_end2end[of ds c ci ct] by auto
  from m ne obtain imgs where im: "images_to_matrix c ci (image_matrix ds) (image_idx2row ds) = Inr imgs"
    by (cases "images_to_matrix c ci (image_matrix ds) (image_idx2row ds)")
       (auto simp: materialize_def)
  from m ne im obtain ipad where ip: "np_zeros (image_target ds - int (nrows imgs)) [shape_last imgs] = Inr ipad"
    by (cases "np_zeros (image_target ds - int (nrows imgs)) [shape_last imgs]")
       (auto simp: materialize_def)
  from m ne im ip obtain tm where tx: "text_to_matrix c ct (vocab ds) (seq_len (args ds)) = Inr tm"
    by (cases "text_to_matrix c ct (vocab ds) (seq_len (args ds))")
       (auto simp: materialize_def)
  from m ne im ip tx obtain tpad0 where tp0: "np_zeros (text_target ds - int (nrows tm)) [shape_last tm] = Inr tpad0"
    by (cases "np_zeros (text_target ds - int (nrows tm)) [shape_last tm]")
       (auto simp: materialize_def)
  from m ne im ip tx tp0 obtain tpad where tp: "set_column0 tpad0 1 = Inr tpad"
    by (cases "set_column0 tpad0 1") (auto simp: materialize_def)
  from m ne im ip tx tp0 tp obtain pi where vi: "np_vstack [imgs, ipad] = Inr pi"
    by (cases "np_vstack [imgs, ipad]") (auto simp: materialize_def)
  from m ne im ip tx tp0 tp vi obtain pt where vt: "np_vstack [tm, tpad] = Inr pt"
    by (cases "np_vstack [tm, tpad]") (auto simp: materialize_def)
  have r: "r = \<lparr>doc_images = pi, doc_text = pt, image_n = nrows imgs, text_n = nrows tm\<rparr>"
    using m ne im ip tx tp0 tp vi vt by (simp add: materialize_def)
  have si: "tshape imgs \<noteq> []" using i2[OF im] .
  have st: "tshape tm \<noteq> []" using t2[OF tx] .
  note zi = np_zeros_Inr[OF ip]
  note zt = np_zeros_Inr[OF tp0]
  have ipad: "ipad = \<lparr>tshape = [last (tshape imgs)],
      items = replicate (nat (image_target ds - int (nrows imgs))) (replicate (last (tshape imgs)) 0)\<rparr>"
    using zi by (simp add: shape_last_matrix[OF si])
  have tpad0: "tpad0 = \<lparr>tshape = [last (tshape tm)],
      items = replicate (nat (text_target ds - int (nrows tm))) (replicate (last (tshape tm)) 0)\<rparr>"
    using zt by (simp add: shape_last_matrix[OF st])
  have w0: "last (tshape tm) \<noteq> 0"
    and tpad: "tpad = \<lparr>tshape = [last (tshape tm)],
      items = replicate (nat (text_target ds - int (nrows tm)))
                (1 # replicate (last (tshape tm) - 1) 0)\<rparr>"
    using tp unfolding tpad0 set_column0_zeros by (auto split: if_splits)
  have vi': "tshape ipad = tshape imgs \<and> pi = \<lparr>tshape = tshape imgs, items = items imgs @ items ipad\<rparr>"
    using vi np_vstack_pair[of imgs ipad] si by (auto simp: ipad split: if_splits)
  have vt': "tshape tpad = tshape tm \<and> pt = \<lparr>tshape = tshape tm, items = items tm @ items tpad\<rparr>"
    using vt np_vstack_pair[of tm tpad] st by (auto simp: tpad split: if_splits)
  from vi' si obtain d where d: "tshape imgs = [d]"
    using singleton_last[of "tshape imgs"] by (auto simp: ipad)
  from vt' st obtain w where w: "tshape tm = [w]"
    using singleton_last[of "tshape tm"] by (auto simp: tpad)
  have wpos: "0 < w" using w0 w by simp
  have ni: "nat (image_target ds - int (nrows imgs)) = nat (image_target ds) - nrows imgs" by simp
  have nt: "nat (text_target ds - int (nrows tm)) = nat (text_target ds) - nrows tm" by simp
  have di: "doc_images r = \<lparr>tshape = [d],
          items = items imgs @ replicate (nat (image_target ds) - nrows imgs) (replicate d 0)\<rparr>"
    using vi' d by (simp add: r ipad ni)
  have dt: "doc_text r = \<lparr>tshape = [w],
          items = items tm @ replicate (nat (text_target ds) - nrows tm)
                                (1 # replicate (w - 1) 0)\<rparr>"
    using vt' w by (simp add: r tpad nt)
  show ?thesis
    using ne im tx d w wpos zi zt di dt by (auto simp: r)
qed

lemma materialize_too_many:
  assumes "(\<exists>a. images_to_matrix c ci (image_matrix ds) (image_idx2row ds) = Inr a
                \<and> image_target ds < int (nrows a))
         \<or> (\<exists>a. text_to_matrix c ct (vocab ds) (seq_len (args ds)) = Inr a
                \<and> text_target ds < int (nrows a))"
  shows "isl (materialize ds c ci ct)"
proof (cases "end2end (args ds)")
  case True
  then show ?thesis by (simp add: materialize_end2end)
next
  case False
  show ?thesis
    using assms False
    by (auto simp: materialize_def np_zeros_def split: sum.splits)
qed

lemma materialize_too_many_images:
  assumes "\<not> end2end (args ds)"
    and "images_to_matrix c ci (image_matrix ds) (image_idx2row ds) = Inr a"
    and "image_target ds < int (nrows a)"
  shows "materialize ds c ci ct = Inl ValueError"
  using assms by (simp add: materialize_def np_zeros_def)

section \<open>The returned batch\<close>

lemma getitem_Inr:
  assumes "fst (DocumentSequence_getitem ds c h g idx) = Inr b"
  shows "\<exists>rs g'. process_docs ds c (cur_doc_b_of ds h idx) g = (Inr rs, g') \<and> assemble rs = Inr b"
proof -
  obtain r h' where bd: "batch_docs ds h idx = (r, h')" by (cases "batch_docs ds h idx")
  from assms bd obtain a where a: "r = Inr a"
    by (cases r) (auto simp: DocumentSequence_getitem_def)
  obtain p g' where pd: "process_docs ds c (h' ! a) g = (p, g')"
    by (cases "process_docs ds c (h' ! a) g")
  from assms bd a pd obtain rs where rs: "p = Inr rs"
    by (cases p) (auto simp: DocumentSequence_getitem_def)
  have "assemble rs = Inr b" using assms bd a pd rs by (simp add: DocumentSequence_getitem_def)
  moreover have "cur_doc_b_of ds h idx = h' ! a" by (simp add: cur_doc_b_of_def bd a)
  ultimately show ?thesis using pd rs by simp
qed

lemma assemble_Inr:
  assumes "assemble rs = Inr b"
  shows "rs \<noteq> [] \<and> texts b = map doc_text rs \<and> images b = map doc_images rs
       \<and> text_n_docs b = map (\<lambda>r. [text_n r]) rs \<and> image_n_docs b = map (\<lambda>r. [image_n r]) rs
       \<and> y b = (replicate (length rs) 0, replicate (length rs) 0)"
  using assms
  by (cases rs) (auto simp: assemble_def vstack_expanded_def split: sum.splits if_splits list.splits)

lemma getitem_documents:
  assumes ret: "fst (DocumentSequence_getitem ds c h g idx) = Inr b"
  shows "\<exists>rs. length rs = length (cur_doc_b_of ds h idx) \<and> rs \<noteq> []
     \<and> texts b = map doc_text rs \<and> images b = map doc_images rs
     \<and> text_n_docs b = map (\<lambda>r. [text_n r]) rs \<and> image_n_docs b = map (\<lambda>r. [image_n r]) rs
     \<and> (\<forall>k<length rs.
           materialize ds c (fst (selected ds (cur_doc_b_of ds h idx) g k))
                            (snd (selected ds (cur_doc_b_of ds h idx) g k)) = Inr (rs ! k))"
proof -
  from getitem_Inr[OF ret] obtain rs g' where
    p: "process_docs ds c (cur_doc_b_of ds h idx) g = (Inr rs, g')" and a: "assemble rs = Inr b"
    by blast
  show ?thesis using process_docs_Inr[OF p] assemble_Inr[OF a] by auto
qed

section \<open>When the loop body returns\<close>

lemma materialize_total:
  assumes ne: "\<not> end2end (args ds)"
    and im: "images_to_matrix c ci (image_matrix ds) (image_idx2row ds) = Inr a"
    and sa: "tshape a = [d]" and na: "int (nrows a) \<le> image_target ds"
    and tx: "text_to_matrix c ct (vocab ds) (seq_len (args ds)) = Inr t"
    and st: "tshape t = [w]" and w: "0 < w" and nt: "int (nrows t) \<le> text_target ds"
  shows "materialize ds c ci ct =
     Inr \<lparr>doc_images = \<lparr>tshape = [d],
              items = items a @ replicate (nat (image_target ds) - nrows a) (replicate d 0)\<rparr>,
          doc_text = \<lparr>tshape = [w],
              items = items t @ replicate (nat (text_target ds) - nrows t)
                                   (1 # replicate (w - 1) 0)\<rparr>,
          image_n = nrows a, text_n = nrows t\<rparr>"
proof -
  have la: "shape_last a = d" and lt: "shape_last t = w"
    using sa st by (simp_all add: shape_last_matrix)
  have zi: "np_zeros (image_target ds - int (nrows a)) [d] =
      Inr \<lparr>tshape = [d], items = replicate (nat (image_target ds) - nrows a) (replicate d 0)\<rparr>"
    using na by (simp add: np_zeros_def nat_diff_distrib)
  have zt: "np_zeros (text_target ds - int (nrows t)) [w] =
      Inr \<lparr>tshape = [w], items = replicate (nat (text_target ds) - nrows t) (replicate w 0)\<rparr>"
    using nt by (simp add: np_zeros_def nat_diff_distrib)
  have sc: "set_column0 \<lparr>tshape = [w], items = replicate (nat (text_target ds) - nrows t) (replicate w 0)\<rparr> 1
      = Inr \<lparr>tshape = [w], items = replicate (nat (text_target ds) - nrows t) (1 # replicate (w - 1) 0)\<rparr>"
    using w by (simp add: set_column0_zeros)
  have vi: "np_vstack [a, \<lparr>tshape = [d], items = replicate (nat (image_target ds) - nrows a) (replicate d 0)\<rparr>]
      = Inr \<lparr>tshape = [d], items = items a @ replicate (nat (image_target ds) - nrows a) (replicate d 0)\<rparr>"
    using sa by (simp add: np_vstack_pair)
  have vt: "np_vstack [t, \<lparr>tshape = [w], items = replicate (nat (text_target ds) - nrows t) (1 # replicate (w - 1) 0)\<rparr>]
      = Inr \<lparr>tshape = [w], items = items t @ replicate (nat (text_target ds) - nrows t) (1 # replicate (w - 1) 0)\<rparr>"
    using st by (simp add: np_vstack_pair)
  show ?thesis
    unfolding materialize_def
    by (simp only: ne if_False im tx la lt zi zt sc vi vt sum.case prod.case)
qed










section \<open>The example sequence\<close>

lemma example_len: "\<lceil>1 / 3 :: real\<rceil> = 1"
  by (rule ceiling_unique) simp_all

lemma example_len2: "\<lceil>2 / 3 :: real\<rceil> = 1"
  by (rule ceiling_unique) simp_all

lemma example_plain_fields:
  "data_in example_plain = 0" "docs_per_batch (args example_plain) = 3"
  "\<not> end2end (args example_plain)" "seq_len (args example_plain) = 2"
  "image_target example_plain = 2" "text_target example_plain = 2"
  by (simp_all add: example_plain_def example_sequence_def image_target_def text_target_def)

lemma example_plain_len:
  "DocumentSequence_len example_plain [[d]] = Inr 1"
  "DocumentSequence_len example_plain [[d, e]] = Inr 1"
  by (simp_all add: DocumentSequence_len_def example_plain_fields example_len example_len2)

lemma example_cur_doc_b: "cur_doc_b_of example_plain [[d]] 0 = [d, d]"
proof -
  have a: "data_in example_plain < length [[d]]" by (simp add: example_plain_fields)
  show ?thesis
    unfolding cur_doc_b_of_Inr[OF a example_plain_len(1)]
    by (simp add: example_plain_fields py_slice_def slice_index_def)
qed

lemma example_cur_doc_b2: "cur_doc_b_of example_plain [[d, e]] 0 = [d, e, d]"
proof -
  have a: "data_in example_plain < length [[d, e]]" by (simp add: example_plain_fields)
  show ?thesis
    unfolding cur_doc_b_of_Inr[OF a example_plain_len(2)]
    by (simp add: example_plain_fields py_slice_def slice_index_def)
qed

lemma select_ids_plain:
  "select_ids example_plain vers g = (map fst (fst vers), map fst (snd vers), g)"
  by (simp add: select_ids_def example_plain_def example_sequence_def)

lemma example_selected:
  "selected example_plain (d # ds') g 0 = (map fst (fst d), map fst (snd d))"
  by (simp add: selected_def select_ids_plain)

lemma materialize_plain:
  assumes "length ci \<le> 2" and "length ct \<le> 2"
  shows "materialize example_plain example_collaborators ci ct =
     Inr \<lparr>doc_images = \<lparr>tshape = [2],
              items = map (\<lambda>i. [5, 6]) ci @ replicate (2 - length ci) [0, 0]\<rparr>,
          doc_text = \<lparr>tshape = [2],
              items = map (\<lambda>i. [7, 7]) ct @ replicate (2 - length ct) [1, 0]\<rparr>,
          image_n = length ci, text_n = length ct\<rparr>"
proof -
  let ?a = "\<lparr>tshape = [2], items = map (\<lambda>i. [5, 6 :: real]) ci\<rparr>"
  let ?t = "\<lparr>tshape = [2], items = map (\<lambda>i. [7, 7 :: real]) ct\<rparr>"
  have im: "images_to_matrix example_collaborators ci (image_matrix example_plain)
              (image_idx2row example_plain) = Inr ?a"
    by (simp add: example_collaborators_def)
  have tx: "text_to_matrix example_collaborators ct (vocab example_plain)
              (seq_len (args example_plain)) = Inr ?t"
    by (simp add: example_collaborators_def example_plain_fields numeral_2_eq_2)
  have na: "int (nrows ?a) \<le> image_target example_plain"
    and nt: "int (nrows ?t) \<le> text_target example_plain"
    using assms by (simp_all add: nrows_def example_plain_fields)
  have sa: "tshape ?a = [2]" and st: "tshape ?t = [2]" and w: "0 < (2::nat)" by simp_all
  show ?thesis
    unfolding materialize_total[OF example_plain_fields(3) im sa na tx st w nt]
    by (simp add: nrows_def example_plain_fields numeral_2_eq_2)
qed

lemma example_getitem:
  "fst (DocumentSequence_getitem example_plain example_collaborators
          [[example_document, example_document2]] example_rng 0) = Inr example_batch"
proof -
  have a: "data_in example_plain < length [[example_document, example_document2]]"
    by (simp add: example_plain_fields)
  have p: "process_docs example_plain example_collaborators
             [example_document, example_document2, example_document] example_rng
           = (Inr [\<lparr>doc_images = \<lparr>tshape = [2], items = [[5, 6], [0, 0]]\<rparr>,
                    doc_text = \<lparr>tshape = [2], items = [[7, 7], [1, 0]]\<rparr>,
                    image_n = 1, text_n = 1\<rparr>,
                  \<lparr>doc_images = \<lparr>tshape = [2], items = [[5, 6], [5, 6]]\<rparr>,
                    doc_text = \<lparr>tshape = [2], items = [[1, 0], [1, 0]]\<rparr>,
                    image_n = 2, text_n = 0\<rparr>,
                  \<lparr>doc_images = \<lparr>tshape = [2], items = [[5, 6], [0, 0]]\<rparr>,
                    doc_text = \<lparr>tshape = [2], items = [[7, 7], [1, 0]]\<rparr>,
                    image_n = 1, text_n = 1\<rparr>], example_rng)"
    by (simp add: select_ids_plain materialize_plain example_document_def
        example_document2_def numeral_2_eq_2)
  show ?thesis
    unfolding getitem_process[OF a example_plain_len(2)] example_cur_doc_b2 p
    by (simp add: assemble_def vstack_expanded_def shape_def nrows_def example_batch_def)
qed

lemma example_short_getitem:
  "fst (DocumentSequence_getitem example_plain example_collaborators
          [[example_document]] example_rng 0) = Inr example_short_batch"
proof -
  have a: "data_in example_plain < length [[example_document]]"
    by (simp add: example_plain_fields)
  have p: "process_docs example_plain example_collaborators
             [example_document, example_document] example_rng
           = (Inr [\<lparr>doc_images = \<lparr>tshape = [2], items = [[5, 6], [0, 0]]\<rparr>,
                    doc_text = \<lparr>tshape = [2], items = [[7, 7], [1, 0]]\<rparr>,
                    image_n = 1, text_n = 1\<rparr>,
                  \<lparr>doc_images = \<lparr>tshape = [2], items = [[5, 6], [0, 0]]\<rparr>,
                    doc_text = \<lparr>tshape = [2], items = [[7, 7], [1, 0]]\<rparr>,
                    image_n = 1, text_n = 1\<rparr>], example_rng)"
    by (simp add: select_ids_plain materialize_plain example_document_def numeral_2_eq_2)
  show ?thesis
    unfolding getitem_process[OF a example_plain_len(1)] example_cur_doc_b p
    by (simp add: assemble_def vstack_expanded_def shape_def nrows_def example_short_batch_def)
qed

lemma example_matrices:
  "\<forall>ids a. images_to_matrix example_collaborators ids (image_matrix example_plain)
               (image_idx2row example_plain) = Inr a \<longrightarrow> tshape a \<noteq> []"
  "\<forall>ids a. text_to_matrix example_collaborators ids (vocab example_plain)
               (seq_len (args example_plain)) = Inr a \<longrightarrow> tshape a \<noteq> []"
  by (auto simp: example_collaborators_def)

section \<open>More rows than the padding target\<close>

text \<open>
  Claim C10. When the matrix that a collaborator returns for a document has more rows
  than the padding target of its modality (\<open>max_images_per_doc\<close> or
  \<open>max_sentences_per_doc\<close>, or the subsample count when that is positive), the shape of
  the padding is negative and \<^verbatim>\<open>np.zeros\<close> raises: the loop body yields no arrays for
  the document, and \<^verbatim>\<open>__getitem__\<close> raises for every batch that holds such a document.
\<close>

theorem too_many_rows_raises:
  "(\<not> end2end (args ds)
      \<and> images_to_matrix c ci (image_matrix ds) (image_idx2row ds) = Inr a
      \<and> image_target ds < int (nrows a) \<longrightarrow> materialize ds c ci ct = Inl ValueError)
   \<and> (text_to_matrix c ct (vocab ds) (seq_len (args ds)) = Inr a
      \<and> text_target ds < int (nrows a) \<longrightarrow> isl (materialize ds c ci ct))
   \<and> (k < length (cur_doc_b_of ds h idx)
      \<and> ((\<exists>m. images_to_matrix c (fst (selected ds (cur_doc_b_of ds h idx) g k))
                  (image_matrix ds) (image_idx2row ds) = Inr m
               \<and> image_target ds < int (nrows m))
         \<or> (\<exists>m. text_to_matrix c (snd (selected ds (cur_doc_b_of ds h idx) g k))
                  (vocab ds) (seq_len (args ds)) = Inr m
               \<and> text_target ds < int (nrows m)))
      \<longrightarrow> isl (fst (DocumentSequence_getitem ds c h g idx)))"
proof (intro conjI impI)
  assume "\<not> end2end (args ds)
      \<and> images_to_matrix c ci (image_matrix ds) (image_idx2row ds) = Inr a
      \<and> image_target ds < int (nrows a)"
  then show "materialize ds c ci ct = Inl ValueError"
    using materialize_too_many_images by blast
next
  assume "text_to_matrix c ct (vocab ds) (seq_len (args ds)) = Inr a
      \<and> text_target ds < int (nrows a)"
  then show "isl (materialize ds c ci ct)"
    by (intro materialize_too_many) blast
next
  let ?docs = "cur_doc_b_of ds h idx"
  assume a: "k < length ?docs
      \<and> ((\<exists>m. images_to_matrix c (fst (selected ds ?docs g k))
                  (image_matrix ds) (image_idx2row ds) = Inr m
               \<and> image_target ds < int (nrows m))
         \<or> (\<exists>m. text_to_matrix c (snd (selected ds ?docs g k))
                  (vocab ds) (seq_len (args ds)) = Inr m
               \<and> text_target ds < int (nrows m)))"
  then have bad: "isl (materialize ds c (fst (selected ds ?docs g k)) (snd (selected ds ?docs g k)))"
    by (intro materialize_too_many) blast
  show "isl (fst (DocumentSequence_getitem ds c h g idx))"
  proof (rule ccontr)
    assume "\<not> isl (fst (DocumentSequence_getitem ds c h g idx))"
    then obtain b where "fst (DocumentSequence_getitem ds c h g idx) = Inr b"
      by (cases "fst (DocumentSequence_getitem ds c h g idx)") auto
    from getitem_documents[OF this] a obtain rs where
      "materialize ds c (fst (selected ds ?docs g k)) (snd (selected ds ?docs g k)) = Inr (rs ! k)"
      by auto
    then show False using bad by simp
  qed
qed

theorem too_many_rows_raises_witness:
  "isl (fst (DocumentSequence_getitem example_plain example_collaborators
               [[example_document3]] example_rng 0))"
proof -
  have t: "image_target example_plain = 2"
    by (simp add: image_target_def example_plain_def example_sequence_def)
  show ?thesis
    using too_many_rows_raises
            [where ds = example_plain and c = example_collaborators
               and h = "[[example_document3]]" and idx = 0 and g = example_rng and k = 0]
    by (simp add: example_cur_doc_b example_selected t example_collaborators_def
        example_document3_def nrows_def)
qed

section \<open>Counts and padding of a returned batch\<close>

lemma getitem_document:
  assumes ret: "fst (DocumentSequence_getitem ds c h g idx) = Inr b"
    and i2: "\<forall>ids a. images_to_matrix c ids (image_matrix ds) (image_idx2row ds) = Inr a
               \<longrightarrow> tshape a \<noteq> []"
    and t2: "\<forall>ids a. text_to_matrix c ids (vocab ds) (seq_len (args ds)) = Inr a
               \<longrightarrow> tshape a \<noteq> []"
    and k: "k < length (cur_doc_b_of ds h idx)"
  shows "\<exists>imgs tm d w.
      images_to_matrix c (fst (selected ds (cur_doc_b_of ds h idx) g k))
         (image_matrix ds) (image_idx2row ds) = Inr imgs
    \<and> text_to_matrix c (snd (selected ds (cur_doc_b_of ds h idx) g k))
         (vocab ds) (seq_len (args ds)) = Inr tm
    \<and> tshape imgs = [d] \<and> tshape tm = [w] \<and> 0 < w
    \<and> image_n_docs b ! k = [nrows imgs] \<and> text_n_docs b ! k = [nrows tm]
    \<and> int (nrows imgs) \<le> image_target ds \<and> int (nrows tm) \<le> text_target ds
    \<and> images b ! k = \<lparr>tshape = [d],
          items = items imgs @ replicate (nat (image_target ds) - nrows imgs) (replicate d 0)\<rparr>
    \<and> texts b ! k = \<lparr>tshape = [w],
          items = items tm @ replicate (nat (text_target ds) - nrows tm)
                                (1 # replicate (w - 1) 0)\<rparr>"
proof -
  let ?docs = "cur_doc_b_of ds h idx"
  from getitem_documents[OF ret] obtain rs where
    l: "length rs = length ?docs"
    and tx: "texts b = map doc_text rs" and im: "images b = map doc_images rs"
    and tn: "text_n_docs b = map (\<lambda>r. [text_n r]) rs"
    and imn: "image_n_docs b = map (\<lambda>r. [image_n r]) rs"
    and m: "materialize ds c (fst (selected ds ?docs g k)) (snd (selected ds ?docs g k)) = Inr (rs ! k)"
    using k by auto
  have kr: "k < length rs" using k l by simp
  have i2': "\<And>a. images_to_matrix c (fst (selected ds ?docs g k)) (image_matrix ds)
                 (image_idx2row ds) = Inr a \<Longrightarrow> tshape a \<noteq> []"
    using i2 by blast
  have t2': "\<And>a. text_to_matrix c (snd (selected ds ?docs g k)) (vocab ds)
                 (seq_len (args ds)) = Inr a \<Longrightarrow> tshape a \<noteq> []"
    using t2 by blast
  from materialize_Inr[OF m i2' t2'] obtain imgs tm d w where f:
    "images_to_matrix c (fst (selected ds ?docs g k)) (image_matrix ds) (image_idx2row ds) = Inr imgs"
    "text_to_matrix c (snd (selected ds ?docs g k)) (vocab ds) (seq_len (args ds)) = Inr tm"
    "tshape imgs = [d]" "tshape tm = [w]" "0 < w"
    "image_n (rs ! k) = nrows imgs" "text_n (rs ! k) = nrows tm"
    "int (nrows imgs) \<le> image_target ds" "int (nrows tm) \<le> text_target ds"
    "doc_images (rs ! k) = \<lparr>tshape = [d],
          items = items imgs @ replicate (nat (image_target ds) - nrows imgs) (replicate d 0)\<rparr>"
    "doc_text (rs ! k) = \<lparr>tshape = [w],
          items = items tm @ replicate (nat (text_target ds) - nrows tm)
                                (1 # replicate (w - 1) 0)\<rparr>"
    by blast
  show ?thesis
    using f kr by (simp add: tx im tn imn)
qed

lemma getitem_length:
  assumes ret: "fst (DocumentSequence_getitem ds c h g idx) = Inr b"
  shows "length (texts b) = length (cur_doc_b_of ds h idx)
       \<and> length (images b) = length (cur_doc_b_of ds h idx)
       \<and> length (text_n_docs b) = length (cur_doc_b_of ds h idx)
       \<and> length (image_n_docs b) = length (cur_doc_b_of ds h idx)"
  using getitem_documents[OF ret] by auto

text \<open>
  Claim C4. In a returned batch, the entries of the count vectors for document \<open>k\<close> are
  the numbers of rows of the matrices that the collaborators return for the
  identifiers drawn for that document; these rows are the leading rows of the padded
  matrices; the counts are at most the padding target of their modality (the subsample
  count when positive, the configured maximum otherwise); and the padded matrices have
  exactly that many rows. The collaborators return arrays of at least two dimensions.
\<close>

theorem counts_and_padded_rows:
  assumes ret: "fst (DocumentSequence_getitem ds c h g idx) = Inr b"
    and i2: "\<forall>ids a. images_to_matrix c ids (image_matrix ds) (image_idx2row ds) = Inr a
               \<longrightarrow> tshape a \<noteq> []"
    and t2: "\<forall>ids a. text_to_matrix c ids (vocab ds) (seq_len (args ds)) = Inr a
               \<longrightarrow> tshape a \<noteq> []"
    and k: "k < length (cur_doc_b_of ds h idx)"
  shows "\<exists>imgs tm.
      images_to_matrix c (fst (selected ds (cur_doc_b_of ds h idx) g k))
         (image_matrix ds) (image_idx2row ds) = Inr imgs
    \<and> text_to_matrix c (snd (selected ds (cur_doc_b_of ds h idx) g k))
         (vocab ds) (seq_len (args ds)) = Inr tm
    \<and> text_n_docs b ! k = [nrows tm] \<and> image_n_docs b ! k = [nrows imgs]
    \<and> int (nrows tm) \<le> text_target ds \<and> int (nrows imgs) \<le> image_target ds
    \<and> int (nrows (texts b ! k)) = text_target ds
    \<and> int (nrows (images b ! k)) = image_target ds
    \<and> take (nrows tm) (items (texts b ! k)) = items tm
    \<and> take (nrows imgs) (items (images b ! k)) = items imgs"
proof -
  from getitem_document[OF ret i2 t2 k] obtain imgs tm d w where f:
    "images_to_matrix c (fst (selected ds (cur_doc_b_of ds h idx) g k))
         (image_matrix ds) (image_idx2row ds) = Inr imgs"
    "text_to_matrix c (snd (selected ds (cur_doc_b_of ds h idx) g k))
         (vocab ds) (seq_len (args ds)) = Inr tm"
    "image_n_docs b ! k = [nrows imgs]" "text_n_docs b ! k = [nrows tm]"
    "int (nrows imgs) \<le> image_target ds" "int (nrows tm) \<le> text_target ds"
    "images b ! k = \<lparr>tshape = [d],
          items = items imgs @ replicate (nat (image_target ds) - nrows imgs) (replicate d 0)\<rparr>"
    "texts b ! k = \<lparr>tshape = [w],
          items = items tm @ replicate (nat (text_target ds) - nrows tm)
                                (1 # replicate (w - 1) 0)\<rparr>"
    by blast
  have "int (nrows (texts b ! k)) = text_target ds" using f(6) by (simp add: f(8) nrows_def)
  moreover have "int (nrows (images b ! k)) = image_target ds"
    using f(5) by (simp add: f(7) nrows_def)
  moreover have "take (nrows tm) (items (texts b ! k)) = items tm" by (simp add: f(8) nrows_def)
  moreover have "take (nrows imgs) (items (images b ! k)) = items imgs"
    by (simp add: f(7) nrows_def)
  ultimately show ?thesis using f(1-6) by blast
qed

text \<open>
  Claim C3. In a returned batch, every row of a document's text matrix from the
  document's sentence count on is a padding row: its first column is 1, the unknown-token
  index, and its other columns are 0. Every row of the image matrix from the image count
  on is zero. The collaborators return arrays of at least two dimensions.
\<close>

theorem padding_rows:
  assumes ret: "fst (DocumentSequence_getitem ds c h g idx) = Inr b"
    and i2: "\<forall>ids a. images_to_matrix c ids (image_matrix ds) (image_idx2row ds) = Inr a
               \<longrightarrow> tshape a \<noteq> []"
    and t2: "\<forall>ids a. text_to_matrix c ids (vocab ds) (seq_len (args ds)) = Inr a
               \<longrightarrow> tshape a \<noteq> []"
    and k: "k < length (texts b)"
  shows "\<exists>tn im w d.
      text_n_docs b ! k = [tn] \<and> image_n_docs b ! k = [im]
    \<and> shape (texts b ! k) = [nat (text_target ds), w] \<and> 0 < w
    \<and> shape (images b ! k) = [nat (image_target ds), d]
    \<and> (\<forall>i. tn \<le> i \<and> i < nat (text_target ds)
           \<longrightarrow> items (texts b ! k) ! i = 1 # replicate (w - 1) 0)
    \<and> (\<forall>i. im \<le> i \<and> i < nat (image_target ds)
           \<longrightarrow> items (images b ! k) ! i = replicate d 0)"
proof -
  have k': "k < length (cur_doc_b_of ds h idx)" using k getitem_length[OF ret] by simp
  from getitem_document[OF ret i2 t2 k'] obtain imgs tm d w where f:
    "0 < w"
    "image_n_docs b ! k = [nrows imgs]" "text_n_docs b ! k = [nrows tm]"
    "int (nrows imgs) \<le> image_target ds" "int (nrows tm) \<le> text_target ds"
    "images b ! k = \<lparr>tshape = [d],
          items = items imgs @ replicate (nat (image_target ds) - nrows imgs) (replicate d 0)\<rparr>"
    "texts b ! k = \<lparr>tshape = [w],
          items = items tm @ replicate (nat (text_target ds) - nrows tm)
                                (1 # replicate (w - 1) 0)\<rparr>"
    by blast
  have st: "shape (texts b ! k) = [nat (text_target ds), w]"
    using f(5) by (simp add: f(7) shape_def nrows_def)
  have si: "shape (images b ! k) = [nat (image_target ds), d]"
    using f(4) by (simp add: f(6) shape_def nrows_def)
  have pt: "items (texts b ! k) ! i = 1 # replicate (w - 1) 0"
    if "nrows tm \<le> i \<and> i < nat (text_target ds)" for i
  proof -
    have "i - nrows tm < nat (text_target ds) - nrows tm" using that by linarith
    then show ?thesis using that by (simp add: f(7) nrows_def nth_append)
  qed
  have pi: "items (images b ! k) ! i = replicate d 0"
    if "nrows imgs \<le> i \<and> i < nat (image_target ds)" for i
  proof -
    have "i - nrows imgs < nat (image_target ds) - nrows imgs" using that by linarith
    then show ?thesis using that by (simp add: f(6) nrows_def nth_append)
  qed
  show ?thesis using f(1-3) st si pt pi by blast
qed


theorem counts_and_padded_rows_witness:
  "text_n_docs example_batch ! 1 = [0] \<and> image_n_docs example_batch ! 1 = [2]
   \<and> int (nrows (texts example_batch ! 1)) = text_target example_plain
   \<and> int (nrows (images example_batch ! 1)) = image_target example_plain
   \<and> text_target example_plain = 2 \<and> image_target example_plain = 2"
proof -
  have k: "1 < length (cur_doc_b_of example_plain [[example_document, example_document2]] 0)"
    by (simp add: example_cur_doc_b2)
  have t: "text_target example_plain = 2 \<and> image_target example_plain = 2"
    by (simp add: text_target_def image_target_def example_plain_def example_sequence_def)
  have c: "text_n_docs example_batch ! 1 = [0] \<and> image_n_docs example_batch ! 1 = [2]"
    by (simp add: example_batch_def)
  from counts_and_padded_rows[OF example_getitem example_matrices k]
  have "int (nrows (texts example_batch ! 1)) = text_target example_plain
      \<and> int (nrows (images example_batch ! 1)) = image_target example_plain"
    by blast
  then show ?thesis using t c by blast
qed

theorem padding_rows_witness:
  "items (texts example_batch ! 0) ! 1 = [1, 0] \<and> items (images example_batch ! 0) ! 1 = [0, 0]
   \<and> text_n_docs example_batch ! 0 = [1] \<and> image_n_docs example_batch ! 0 = [1]"
proof -
  have k: "0 < length (texts example_batch)" by (simp add: example_batch_def)
  have t: "text_target example_plain = 2" "image_target example_plain = 2"
    by (simp_all add: text_target_def image_target_def example_plain_def example_sequence_def)
  from padding_rows[OF example_getitem example_matrices k] obtain tn im w d where f:
    "text_n_docs example_batch ! 0 = [tn]" "image_n_docs example_batch ! 0 = [im]"
    "shape (texts example_batch ! 0) = [nat (text_target example_plain), w]"
    "shape (images example_batch ! 0) = [nat (image_target example_plain), d]"
    "\<forall>i. tn \<le> i \<and> i < nat (text_target example_plain)
           \<longrightarrow> items (texts example_batch ! 0) ! i = 1 # replicate (w - 1) 0"
    "\<forall>i. im \<le> i \<and> i < nat (image_target example_plain)
           \<longrightarrow> items (images example_batch ! 0) ! i = replicate d 0"
    by blast
  have v: "tn = 1" "im = 1" "w = 2" "d = 2"
    using f(1-4) by (simp_all add: example_batch_def shape_def)
  have "items (texts example_batch ! 0) ! 1 = 1 # replicate (w - 1) 0"
    using f(5) v t by simp
  moreover have "items (images example_batch ! 0) ! 1 = replicate d 0"
    using f(6) v t by simp
  ultimately show ?thesis using f(1,2) v by (simp add: numeral_2_eq_2)
qed

section \<open>Documents without images or without sentences\<close>



section \<open>The number of documents in a batch\<close>

lemma number_of_batches:
  "0 < docs_per_batch (args ds) \<Longrightarrow>
   DocumentSequence_len ds h =
     Inr \<lceil>real (length (h ! data_in ds)) / real_of_int (docs_per_batch (args ds))\<rceil>"
proof -
  assume b: "0 < docs_per_batch (args ds)"
  have "0 \<le> real (length (h ! data_in ds)) / real_of_int (docs_per_batch (args ds))"
    using b by simp
  then have "0 \<le> \<lceil>real (length (h ! data_in ds)) / real_of_int (docs_per_batch (args ds))\<rceil>"
    by linarith
  then show ?thesis using b by (simp add: DocumentSequence_len_def Let_def)
qed

lemma py_slice_prefix: "0 \<le> k \<Longrightarrow> py_slice xs None (Some k) = take (nat k) xs"
  by (auto simp: py_slice_def slice_index_def min_def Let_def)

lemma batch_before_the_last:
  assumes a: "data_in ds < length h" and b: "0 < docs_per_batch (args ds)"
    and n: "DocumentSequence_len ds h = Inr n" and i0: "0 \<le> idx" and i: "idx < n - 1"
  shows "cur_doc_b_of ds h idx =
           take (nat (docs_per_batch (args ds)))
             (drop (nat (idx * docs_per_batch (args ds))) (h ! data_in ds))
       \<and> length (cur_doc_b_of ds h idx) = nat (docs_per_batch (args ds))"
proof -
  let ?B = "docs_per_batch (args ds)"
  let ?docs = "h ! data_in ds"
  have nn: "n = \<lceil>real (length ?docs) / real_of_int ?B\<rceil>"
    using n number_of_batches[OF b, of h] by simp
  have "idx + 1 < \<lceil>real (length ?docs) / real_of_int ?B\<rceil>" using i nn by simp
  from valid_index_start[OF b this] i0 have l: "nat ((idx + 1) * ?B) < length ?docs" by simp
  have s: "0 \<le> idx * ?B" using i0 b by simp
  have "(idx + 1) * ?B = idx * ?B + ?B" by (simp add: algebra_simps)
  then have "nat (idx * ?B) + nat ?B < length ?docs" using l s b by (simp add: nat_add_distrib)
  then have len: "length (take (nat ?B) (drop (nat (idx * ?B)) ?docs)) = nat ?B" by simp
  have c: "cur_doc_b_of ds h idx = take (nat ?B) (drop (nat (idx * ?B)) ?docs)"
    using i by (simp add: cur_doc_b_of_Inr[OF a n] py_slice_window[OF i0 b])
  show ?thesis using c len by simp
qed

lemma last_batch:
  assumes a: "data_in ds < length h" and b: "0 < docs_per_batch (args ds)"
    and n: "DocumentSequence_len ds h = Inr n" and i0: "0 \<le> idx" and i: "idx = n - 1"
  shows "cur_doc_b_of ds h idx =
           drop (nat (idx * docs_per_batch (args ds))) (h ! data_in ds)
           @ take (nat (docs_per_batch (args ds))
                    - (length (h ! data_in ds) - nat (idx * docs_per_batch (args ds))))
               (h ! data_in ds)"
proof -
  let ?B = "docs_per_batch (args ds)"
  let ?docs = "h ! data_in ds"
  have nn: "n = \<lceil>real (length ?docs) / real_of_int ?B\<rceil>"
    using n number_of_batches[OF b, of h] by simp
  have "real (length ?docs) / real_of_int ?B \<le> real_of_int n" unfolding nn by (rule le_of_int_ceiling)
  then have "real (length ?docs) \<le> real_of_int n * real_of_int ?B"
    using b by (simp add: pos_divide_le_eq)
  then have "real_of_int (int (length ?docs)) \<le> real_of_int (n * ?B)" by simp
  then have up: "int (length ?docs) \<le> n * ?B" by (simp only: of_int_le_iff)
  have s: "0 \<le> idx * ?B" using i0 b by simp
  have "n = idx + 1" using i by simp
  then have "n * ?B = idx * ?B + ?B" by (simp add: algebra_simps)
  then have short: "length ?docs - nat (idx * ?B) \<le> nat ?B" using up s by linarith
  then have w: "py_slice ?docs (Some (idx * ?B)) (Some ((idx + 1) * ?B))
                  = drop (nat (idx * ?B)) ?docs"
    by (simp add: py_slice_window[OF i0 b])
  have k: "0 \<le> ?B - int (length (drop (nat (idx * ?B)) ?docs))" using short b by simp
  have e: "nat (?B - int (length (drop (nat (idx * ?B)) ?docs)))
             = nat ?B - (length ?docs - nat (idx * ?B))"
    by simp
  show ?thesis
    unfolding cur_doc_b_of_Inr[OF a n] if_P[OF i] w py_slice_prefix[OF k] e ..
qed

text \<open>
  Claim C2. The number of batches is the ceiling of \<open>N / docs_per_batch\<close>
  (\<open>number_of_batches\<close>), every batch before the last holds \<open>docs_per_batch\<close> documents
  (\<open>batch_before_the_last\<close>), and the last batch is the trailing documents followed by
  leading documents of the collection (\<open>last_batch\<close>). But the wraparound takes the
  leading documents by a slice, which yields at most \<open>N\<close> of them: a collection of one
  document with three documents per batch has one batch, and that batch holds two
  documents, so the four arrays have first dimension 2 and not 3.
\<close>

theorem final_batch_short_of_documents:
  "DocumentSequence_len example_plain [[example_document]] = Inr 1
   \<and> docs_per_batch (args example_plain) = 3
   \<and> cur_doc_b_of example_plain [[example_document]] 0 = [example_document, example_document]
   \<and> fst (DocumentSequence_getitem example_plain example_collaborators [[example_document]]
             example_rng 0) = Inr example_short_batch
   \<and> length (texts example_short_batch) = 2 \<and> length (images example_short_batch) = 2
   \<and> length (text_n_docs example_short_batch) = 2
   \<and> length (image_n_docs example_short_batch) = 2"
  by (simp add: example_plain_len example_plain_fields example_cur_doc_b example_short_getitem)
     (simp add: example_short_batch_def)

end
